theory Spec2Isabelle
  imports Main "HOL-Library.Sublist"
begin

section \<open>Python strings\<close>

text \<open>
  A Python \<open>str\<close> is a sequence of Unicode code points, and \<open>len\<close> counts code points.
  It is modelled as a list of naturals, one per code point. \<open>u\<close> turns an ASCII literal
  of the source into such a string.
\<close>

type_synonym pystr = "nat list"

definition u :: "string \<Rightarrow> pystr" where
  "u s = map of_char s"

text \<open>\<open>s.startswith(p)\<close>.\<close>

definition startswith :: "pystr \<Rightarrow> pystr \<Rightarrow> bool" where
  "startswith s p = (take (length p) s = p)"

text \<open>\<open>p in s\<close> on strings: \<open>p\<close> occurs in \<open>s\<close> as a contiguous substring.\<close>

fun py_in :: "pystr \<Rightarrow> pystr \<Rightarrow> bool" where
  "py_in p [] = (p = [])"
| "py_in p (c # s) = (startswith (c # s) p \<or> py_in p s)"

section \<open>Configuration and parser state\<close>

text \<open>
  The options the parser reads from its configuration object. \<open>config.get(k)\<close> of an
  absent key is \<open>None\<close>; a proxy URL option is used only when it is truthy (present and
  non-empty).
\<close>

record config =
  proxy_enabled :: bool
  cfg_proxy_list :: "pystr list"
  proxy_http :: "pystr option"
  proxy_https :: "pystr option"
  proxy_socks :: "pystr option"
  proxy_rotate :: bool
  max_categories_per_session :: int
  category_delay :: nat

text \<open>
  The mutable fields of \<open>DoskiParser\<close> that the fetcher and the proxy manager touch:
  \<open>self.proxy_list\<close>, \<open>self.current_proxy_index\<close> and \<open>self.session.proxies\<close> (a
  dictionary from scheme to proxy URL, empty when no proxy is installed).
\<close>

record parser =
  proxy_list :: "pystr list"
  current_proxy_index :: nat
  session_proxies :: "(string \<times> pystr) list"

definition init_parser :: parser where
  "init_parser = \<lparr>proxy_list = [], current_proxy_index = 0, session_proxies = []\<rparr>"

section \<open>Proxy rotation manager\<close>

text \<open>
  \<open>_set_proxy\<close>. The flag \<open>has_socks\<close> says whether \<open>import socks\<close> succeeds; when it
  does not, a SOCKS proxy is refused and the session keeps its previous proxies.
\<close>

definition set_proxy :: "bool \<Rightarrow> pystr \<Rightarrow> parser \<Rightarrow> bool \<times> parser" where
  "set_proxy has_socks proxy_url st =
     (if startswith proxy_url (u ''socks'') then
        (if has_socks
         then (True, st\<lparr>session_proxies := [(''http'', proxy_url), (''https'', proxy_url)]\<rparr>)
         else (False, st))
      else (True, st\<lparr>session_proxies := [(''http'', proxy_url), (''https'', proxy_url)]\<rparr>))"

text \<open>\<open>_setup_proxy\<close>, run once by the constructor on the initial state.\<close>

definition truthy_url :: "pystr option \<Rightarrow> pystr list" where
  "truthy_url v = (case v of None \<Rightarrow> [] | Some s \<Rightarrow> (if s = [] then [] else [s]))"

definition setup_proxy :: "bool \<Rightarrow> config \<Rightarrow> parser \<Rightarrow> parser" where
  "setup_proxy has_socks cfg st =
     (if \<not> proxy_enabled cfg then st
      else
        let pl = (if cfg_proxy_list cfg \<noteq> [] then cfg_proxy_list cfg
                  else proxy_list st @ truthy_url (proxy_http cfg) @ truthy_url (proxy_https cfg)
                         @ truthy_url (proxy_socks cfg));
            st1 = st\<lparr>proxy_list := pl\<rparr>
        in (case pl of [] \<Rightarrow> st1 | p # _ \<Rightarrow> snd (set_proxy has_socks p st1)))"

text \<open>\<open>_rotate_proxy\<close>: the index is advanced before the new proxy is installed.\<close>

definition rotate_proxy :: "bool \<Rightarrow> parser \<Rightarrow> bool \<times> parser" where
  "rotate_proxy has_socks st =
     (if proxy_list st = [] \<or> length (proxy_list st) \<le> 1 then (False, st)
      else
        let st1 = st\<lparr>current_proxy_index :=
                        (current_proxy_index st + 1) mod length (proxy_list st)\<rparr>;
            new_proxy = proxy_list st1 ! current_proxy_index st1
        in set_proxy has_socks new_proxy st1)"

text \<open>\<open>n\<close> consecutive calls of \<open>_rotate_proxy\<close>.\<close>

fun rotate_times :: "nat \<Rightarrow> bool \<Rightarrow> parser \<Rightarrow> parser" where
  "rotate_times 0 has_socks st = st"
| "rotate_times (Suc n) has_socks st = rotate_times n has_socks (snd (rotate_proxy has_socks st))"

section \<open>Sample proxy pools\<close>

definition pool3 :: parser where
  "pool3 = \<lparr>proxy_list = [u ''http://p1:8080'', u ''socks5://p2:1080'', u ''http://p3:8080''],
            current_proxy_index = 1,
            session_proxies = [(''http'', u ''socks5://p2:1080''), (''https'', u ''socks5://p2:1080'')]\<rparr>"

definition pool1 :: parser where
  "pool1 = \<lparr>proxy_list = [u ''http://p1:8080''], current_proxy_index = 0,
            session_proxies = [(''http'', u ''http://p1:8080''), (''https'', u ''http://p1:8080'')]\<rparr>"

section \<open>More string operations\<close>

text \<open>
  The code points for which \<open>str.isspace()\<close> holds; \<open>str.strip()\<close> and the regular
  expression class \<open>\S\<close> are defined by them.
\<close>

definition is_space :: "nat \<Rightarrow> bool" where
  "is_space c = (c \<in> {9, 10, 11, 12, 13, 28, 29, 30, 31, 32, 133, 160, 5760,
                       8232, 8233, 8239, 8287, 12288} \<or> (8192 \<le> c \<and> c \<le> 8202))"

definition strip :: "pystr \<Rightarrow> pystr" where
  "strip s = rev (dropWhile is_space (rev (dropWhile is_space s)))"

text \<open>\<open>re.findall(r"\S+", s)\<close>: the maximal runs of non-space code points.\<close>

fun nonspace_runs :: "pystr \<Rightarrow> pystr \<Rightarrow> pystr list" where
  "nonspace_runs cur [] = (if cur = [] then [] else [cur])"
| "nonspace_runs cur (c # s) =
     (if is_space c then (if cur = [] then [] else [cur]) @ nonspace_runs [] s
      else nonspace_runs (cur @ [c]) s)"

text \<open>\<open>sep.join(xs)\<close>.\<close>

fun join :: "pystr \<Rightarrow> pystr list \<Rightarrow> pystr" where
  "join sep [] = []"
| "join sep [x] = x"
| "join sep (x # y # ys) = x @ sep @ join sep (y # ys)"

text \<open>
  \<open>s.split(c)\<close> for a separator of one code point: the pieces between the separators,
  never an empty list.
\<close>

fun split_acc :: "nat \<Rightarrow> pystr \<Rightarrow> pystr \<Rightarrow> pystr list" where
  "split_acc sep cur [] = [cur]"
| "split_acc sep cur (c # s) =
     (if c = sep then cur # split_acc sep [] s else split_acc sep (cur @ [c]) s)"

definition py_split :: "pystr \<Rightarrow> nat \<Rightarrow> pystr list" where
  "py_split s sep = split_acc sep [] s"

text \<open>
  \<open>s.lower()\<close>. ASCII capitals move to their small letters. The only code points
  beyond ASCII whose lower case contains an ASCII letter are U+0130 and U+212A; every
  other code point is left as it is, which changes no test for an ASCII substring.
\<close>

definition lower_cp :: "nat \<Rightarrow> pystr" where
  "lower_cp c = (if 65 \<le> c \<and> c \<le> 90 then [c + 32]
                 else if c = 304 then [105, 775]
                 else if c = 8490 then [107]
                 else [c])"

definition lower :: "pystr \<Rightarrow> pystr" where
  "lower s = concat (map lower_cp s)"

text \<open>\<open>str(n)\<close> for an integer: its decimal digits, with a minus sign when negative.\<close>

function str_nat :: "nat \<Rightarrow> pystr" where
  "str_nat n = (if n < 10 then [48 + n] else str_nat (n div 10) @ [48 + n mod 10])"
  by pat_completeness auto
termination
  by (relation "measure id") auto

declare str_nat.simps [simp del]

definition str_int :: "int \<Rightarrow> pystr" where
  "str_int i = (if i < 0 then 45 # str_nat (nat (- i)) else str_nat (nat i))"

section \<open>The parsed document\<close>

text \<open>
  What \<open>BeautifulSoup(html, 'html.parser')\<close> builds: a forest of nodes. An element has a
  tag name, its attributes (a dictionary, here a list of pairs with distinct keys) and
  its children. \<open>Text\<close> is a \<open>NavigableString\<close> or \<open>CData\<close>, the strings that
  \<open>get_text\<close> collects; \<open>Special\<close> stands for the other string nodes (comments,
  doctypes, declarations, script and style text), which are instances of \<open>str\<close> too but
  are left out by \<open>get_text\<close>.
\<close>

datatype node =
    Element pystr "(pystr \<times> pystr) list" "node list"
  | Text pystr
  | Special pystr

type_synonym path = "nat list"

text \<open>
  An element as the code holds it: the node together with its place in the document (the
  child indices from the root) and its proper ancestors, nearest first, each with its tag
  and attributes.
\<close>

type_synonym elem = "pystr \<times> (pystr \<times> pystr) list"
type_synonym located = "path \<times> elem list \<times> node"

text \<open>A node and all its descendants in document order; \<open>walks\<close> does the same for
  a list of siblings that starts at child index \<open>i\<close>.\<close>

fun walk :: "path \<Rightarrow> elem list \<Rightarrow> node \<Rightarrow> located list"
  and walks :: "path \<Rightarrow> elem list \<Rightarrow> nat \<Rightarrow> node list \<Rightarrow> located list" where
  "walk p anc (Element t a cs) = (p, anc, Element t a cs) # walks p ((t, a) # anc) 0 cs"
| "walk p anc (Text s) = [(p, anc, Text s)]"
| "walk p anc (Special s) = [(p, anc, Special s)]"
| "walks p anc i [] = []"
| "walks p anc i (n # ns) = walk (p @ [i]) anc n @ walks p anc (Suc i) ns"

definition document :: "node list \<Rightarrow> located list" where
  "document doc = walks [] [] 0 doc"

text \<open>\<open>tag.descendants\<close>: empty for a string node.\<close>

fun descendants :: "located \<Rightarrow> located list" where
  "descendants (p, anc, Element t a cs) = walks p ((t, a) # anc) 0 cs"
| "descendants (p, anc, Text s) = []"
| "descendants (p, anc, Special s) = []"

fun is_element :: "located \<Rightarrow> bool" where
  "is_element (p, anc, Element t a cs) = True"
| "is_element (p, anc, Text s) = False"
| "is_element (p, anc, Special s) = False"

fun elem_of :: "located \<Rightarrow> elem" where
  "elem_of (p, anc, Element t a cs) = (t, a)"
| "elem_of (p, anc, Text s) = ([], [])"
| "elem_of (p, anc, Special s) = ([], [])"

text \<open>\<open>tag.get(name)\<close>: \<open>None\<close> when the attribute is absent.\<close>

definition get_attr :: "located \<Rightarrow> pystr \<Rightarrow> pystr option" where
  "get_attr e name = map_of (snd (elem_of e)) name"

text \<open>
  \<open>tag.get_text(strip=True)\<close>: the \<open>Text\<close> strings below the tag in document order,
  each stripped, the empty ones dropped, concatenated with no separator.
\<close>

fun text_of :: "located \<Rightarrow> pystr list" where
  "text_of (p, anc, Text s) = [s]"
| "text_of (p, anc, Element t a cs) = []"
| "text_of (p, anc, Special s) = []"

definition get_text_strip :: "located \<Rightarrow> pystr" where
  "get_text_strip e =
     concat (filter (\<lambda>s. s \<noteq> []) (map strip (concat (map text_of (descendants e)))))"

section \<open>CSS selectors\<close>

text \<open>
  The selectors of the source are compound selectors joined by the descendant combinator.
  A compound selector is an optional tag name and a list of tests: \<open>.c\<close> (the class list
  has \<open>c\<close>), \<open>[a="v"]\<close> (attribute \<open>a\<close> is \<open>v\<close>) and \<open>[a*="v"]\<close> (attribute \<open>a\<close>
  contains \<open>v\<close>). The value of \<open>class\<close> is a list of names, split at white space, and
  an attribute test reads it joined by single spaces.
\<close>

datatype test = HasClass pystr | AttrEq pystr pystr | AttrContains pystr pystr

datatype compound = Compound "pystr option" "test list"

type_synonym selector = "compound list"

definition class_list :: "elem \<Rightarrow> pystr list" where
  "class_list e = (case map_of (snd e) (u ''class'') of None \<Rightarrow> []
                    | Some v \<Rightarrow> nonspace_runs [] v)"

definition attr_value :: "elem \<Rightarrow> pystr \<Rightarrow> pystr option" where
  "attr_value e a = (if a = u ''class''
                      then (case map_of (snd e) a of None \<Rightarrow> None
                            | Some v \<Rightarrow> Some (join (u '' '') (nonspace_runs [] v)))
                      else map_of (snd e) a)"

fun match_test :: "elem \<Rightarrow> test \<Rightarrow> bool" where
  "match_test e (HasClass c) = (c \<in> set (class_list e))"
| "match_test e (AttrEq a v) = (attr_value e a = Some v)"
| "match_test e (AttrContains a v) =
     (case attr_value e a of None \<Rightarrow> False | Some w \<Rightarrow> py_in v w)"

fun match_compound :: "compound \<Rightarrow> elem \<Rightarrow> bool" where
  "match_compound (Compound tg ts) e =
     ((case tg of None \<Rightarrow> True | Some t \<Rightarrow> fst e = t) \<and> list_all (match_test e) ts)"

text \<open>
  The ancestors of an element satisfy the compounds left of it (given nearest first) when
  some ancestor matches the first of them and the ancestors above that one satisfy the
  rest.
\<close>

fun match_ancestors :: "compound list \<Rightarrow> elem list \<Rightarrow> bool" where
  "match_ancestors [] anc = True"
| "match_ancestors (c # cs) [] = False"
| "match_ancestors (c # cs) (a # anc) =
     ((match_compound c a \<and> match_ancestors cs anc) \<or> match_ancestors (c # cs) anc)"

definition matches :: "selector \<Rightarrow> located \<Rightarrow> bool" where
  "matches sel e =
     (is_element e \<and>
      (case rev sel of [] \<Rightarrow> False
       | c # cs \<Rightarrow> match_compound c (elem_of e) \<and> match_ancestors cs (fst (snd e))))"

text \<open>
  \<open>tag.select(sel)\<close> and \<open>tag.select_one(sel)\<close>: the descendants of the tag that match,
  in document order, and the first of them. \<open>soup.select(sel)\<close> searches the whole
  document.
\<close>

definition select :: "selector \<Rightarrow> located \<Rightarrow> located list" where
  "select sel e = filter (matches sel) (descendants e)"

definition select_one :: "selector \<Rightarrow> located \<Rightarrow> located option" where
  "select_one sel e = (case select sel e of [] \<Rightarrow> None | x # _ \<Rightarrow> Some x)"

definition soup_select :: "selector \<Rightarrow> node list \<Rightarrow> located list" where
  "soup_select sel doc = filter (matches sel) (document doc)"

text \<open>
  \<open>tag.find_all(name, attr=True)\<close> and \<open>tag.find(name, attr=True)\<close>: the descendant
  elements with that tag name that carry the attribute, whatever its value.
\<close>

definition has_tag_attr :: "pystr \<Rightarrow> pystr \<Rightarrow> located \<Rightarrow> bool" where
  "has_tag_attr name a e =
     (is_element e \<and> fst (elem_of e) = name \<and> map_of (snd (elem_of e)) a \<noteq> None)"

definition find_all_with :: "pystr \<Rightarrow> pystr \<Rightarrow> located \<Rightarrow> located list" where
  "find_all_with name a e = filter (has_tag_attr name a) (descendants e)"

definition find_with :: "pystr \<Rightarrow> pystr \<Rightarrow> located \<Rightarrow> located option" where
  "find_with name a e = (case find_all_with name a e of [] \<Rightarrow> None | x # _ \<Rightarrow> Some x)"

text \<open>
  \<open>tag.find_next(name)\<close>: the first element with that name among the nodes that follow
  the start of the tag in document order (its own descendants first, then the rest of the
  document).
\<close>

definition following :: "node list \<Rightarrow> located \<Rightarrow> located list" where
  "following doc e = drop 1 (dropWhile (\<lambda>x. fst x \<noteq> fst e) (document doc))"

definition find_next :: "node list \<Rightarrow> pystr \<Rightarrow> located \<Rightarrow> located option" where
  "find_next doc name e =
     (case filter (\<lambda>x. is_element x \<and> fst (elem_of x) = name) (following doc e) of
        [] \<Rightarrow> None | x # _ \<Rightarrow> Some x)"

text \<open>\<open>tag.next_sibling\<close>: the node after the tag under the same parent, if any.\<close>

definition next_sibling :: "node list \<Rightarrow> located \<Rightarrow> located option" where
  "next_sibling doc e =
     (if fst e = [] then None
      else
        (case filter (\<lambda>x. fst x = butlast (fst e) @ [Suc (last (fst e))]) (document doc) of
           [] \<Rightarrow> None | x # _ \<Rightarrow> Some x))"

text \<open>The selectors of the listing extractor.\<close>

definition sel_tag :: "string \<Rightarrow> compound" where
  "sel_tag t = Compound (Some (u t)) []"

definition sel_class :: "string \<Rightarrow> compound" where
  "sel_class c = Compound None [HasClass (u c)]"

definition sel_class_contains :: "string \<Rightarrow> compound" where
  "sel_class_contains v = Compound None [AttrContains (u ''class'') (u v)]"

definition sel_rows :: selector where
  "sel_rows = [Compound (Some (u ''table'')) [HasClass (u ''ml'')], sel_tag ''tr'']"

definition sel_title_anchor :: selector where
  "sel_title_anchor = [Compound (Some (u ''a'')) [HasClass (u ''sbj'')]]"

definition sel_price_cell :: selector where
  "sel_price_cell = [Compound (Some (u ''td'')) [AttrEq (u ''align'') (u ''right'')], sel_tag ''b'']"

section \<open>Collaborators and exceptions\<close>

text \<open>
  The library functions the parser calls and does not define. They are parameters of the
  model: \<open>html_parser\<close> is \<open>BeautifulSoup(_, 'html.parser')\<close>, \<open>urljoin\<close> is
  \<open>urllib.parse.urljoin\<close>, \<open>validate_url\<close> comes from the \<open>utils\<close> module, \<open>py_hash\<close>
  is the built-in \<open>hash\<close> on strings (fixed within one process), and \<open>now_iso n\<close> is
  what \<open>datetime.now().isoformat()\<close> returns at the \<open>n\<close>-th reading of the clock.
\<close>

record env =
  html_parser :: "pystr \<Rightarrow> node list"
  urljoin :: "pystr \<Rightarrow> pystr \<Rightarrow> pystr"
  validate_url :: "pystr \<Rightarrow> bool"
  py_hash :: "pystr \<Rightarrow> int"
  now_iso :: "nat \<Rightarrow> pystr"

definition base_url :: pystr where
  "base_url = u ''https://www.doski.ru''"

text \<open>
  The exceptions of the program. The faults of the HTTP transport are the exception
  classes of the \<open>requests\<close> library, all of them subclasses of \<open>RequestException\<close>;
  \<open>ProxyError\<close> is a \<open>ConnectionError\<close>; \<open>HTTPError\<close> is what \<open>raise_for_status\<close>
  raises.
\<close>

datatype request_fault = ProxyError | ConnectionError | HTTPError | OtherRequestException

datatype exn =
    Requests request_fault
  | KeyError pystr
  | AttributeError pystr
  | WebDriverException pystr
  | StorageError pystr
  | OtherError pystr

section \<open>Listings\<close>

text \<open>A listing is a dictionary; its values are strings, \<open>None\<close> or a list of strings.\<close>

datatype pyval = Str pystr | NoneVal | StrList "pystr list"

type_synonym listing = "(string \<times> pyval) list"

section \<open>The table-row strategy\<close>

text \<open>
  The description of a row: the node right after the first \<open>br\<close> that follows the title
  anchor, when that node is a string.
\<close>

fun string_of :: "located \<Rightarrow> pystr option" where
  "string_of (p, anc, Text s) = Some s"
| "string_of (p, anc, Special s) = Some s"
| "string_of (p, anc, Element t a cs) = None"

definition row_description :: "node list \<Rightarrow> located \<Rightarrow> pystr" where
  "row_description doc title_elem =
     (case find_next doc (u ''br'') title_elem of
        None \<Rightarrow> []
      | Some br \<Rightarrow>
          (case next_sibling doc br of
             None \<Rightarrow> []
           | Some sib \<Rightarrow> (case string_of sib of None \<Rightarrow> [] | Some s \<Rightarrow> strip s)))"

definition row_price :: "located \<Rightarrow> pystr" where
  "row_price row = (case select_one sel_price_cell row of
                      None \<Rightarrow> [] | Some price_elem \<Rightarrow> get_text_strip price_elem)"

text \<open>\<open>url.split('/')[-1].split('.')[0]\<close>.\<close>

definition row_id :: "pystr \<Rightarrow> pystr" where
  "row_id url = hd (py_split (last (py_split url 47)) 46)"

text \<open>
  The loop of \<open>_extract_listings\<close> over the selected rows. \<open>t\<close> counts the readings of
  the clock and \<open>listings\<close> is the list built so far. A row with no title anchor is
  skipped; \<open>title_elem['href']\<close> raises \<open>KeyError\<close> when the anchor has no \<open>href\<close>,
  and nothing in the function catches it.
\<close>

fun extract_rows ::
  "env \<Rightarrow> node list \<Rightarrow> nat \<Rightarrow> located list \<Rightarrow> listing list \<Rightarrow> exn + listing list" where
  "extract_rows env doc t [] listings = Inr listings"
| "extract_rows env doc t (row # rows) listings =
     (case select_one sel_title_anchor row of
        None \<Rightarrow> extract_rows env doc t rows listings
      | Some title_elem \<Rightarrow>
          (case get_attr title_elem (u ''href'') of
             None \<Rightarrow> Inl (KeyError (u ''href''))
           | Some href \<Rightarrow>
               let title = get_text_strip title_elem;
                   url = urljoin env base_url href;
                   price = row_price row;
                   desc = row_description doc title_elem
               in extract_rows env doc (Suc t) rows
                    (listings @
                       [[(''id'', Str (row_id url)),
                         (''title'', Str title),
                         (''url'', Str url),
                         (''price'', Str price),
                         (''description'', Str desc),
                         (''parsed_at'', Str (now_iso env t))]])))"

text \<open>
  \<open>_extract_listings\<close>, the method of \<open>DoskiParser\<close>; the function of the same name at
  module level has the same body.
\<close>

definition extract_listings :: "env \<Rightarrow> pystr \<Rightarrow> nat \<Rightarrow> exn + listing list" where
  "extract_listings env html_content t =
     (let soup = html_parser env html_content
      in extract_rows env soup t (soup_select sel_rows soup) [])"

section \<open>The generic-item strategy\<close>

text \<open>
  A cascade of selectors: the first selector that finds an element decides, and the loop
  stops there whatever the text of that element is.
\<close>

fun first_match :: "selector list \<Rightarrow> located \<Rightarrow> located option" where
  "first_match [] item = None"
| "first_match (s # ss) item =
     (case select_one s item of Some e \<Rightarrow> Some e | None \<Rightarrow> first_match ss item)"

definition cascade_text :: "selector list \<Rightarrow> located \<Rightarrow> pystr" where
  "cascade_text sels item =
     (case first_match sels item of None \<Rightarrow> [] | Some e \<Rightarrow> get_text_strip e)"

definition title_selectors :: "selector list" where
  "title_selectors = [[sel_tag ''h2''], [sel_tag ''h3''], [sel_class ''title''],
                      [sel_class_contains ''title''], [sel_tag ''a'']]"

definition price_selectors :: "selector list" where
  "price_selectors = [[sel_class ''price''], [sel_class_contains ''price''],
                      [sel_class_contains ''cost'']]"

definition location_selectors :: "selector list" where
  "location_selectors = [[sel_class ''location''], [sel_class_contains ''location''],
                         [sel_class_contains ''city'']]"

definition desc_selectors :: "selector list" where
  "desc_selectors = [[sel_class ''description''], [sel_class ''desc''],
                     [sel_class_contains ''description'']]"

text \<open>
  \<open>item.find('a', href=True)\<close> and \<open>item.find_all('img', src=True)\<close> return only tags
  that carry the attribute, so the subscripts \<open>link['href']\<close> and \<open>img['src']\<close> find
  it; the branch for a missing attribute is never taken.
\<close>

definition item_url :: "env \<Rightarrow> located \<Rightarrow> pystr" where
  "item_url env item =
     (case find_with (u ''a'') (u ''href'') item of
        None \<Rightarrow> []
      | Some link \<Rightarrow>
          (case get_attr link (u ''href'') of
             None \<Rightarrow> []
           | Some href \<Rightarrow> urljoin env base_url href))"

definition item_images :: "env \<Rightarrow> located \<Rightarrow> pystr list" where
  "item_images env item =
     filter (validate_url env)
       (concat (map (\<lambda>img. case get_attr img (u ''src'') of
                              None \<Rightarrow> []
                            | Some src \<Rightarrow> [urljoin env base_url src])
                  (find_all_with (u ''img'') (u ''src'') item)))"

definition item_id :: "env \<Rightarrow> pystr \<Rightarrow> pystr \<Rightarrow> pyval" where
  "item_id env url title =
     (if url \<noteq> [] then
        (let parts = filter (\<lambda>part. part \<noteq> []) (py_split url 47)
         in if parts \<noteq> [] then Str (last parts) else NoneVal)
      else if title \<noteq> [] then Str (take 10 (str_int (py_hash env title)))
      else NoneVal)"

text \<open>\<open>_parse_listing_item\<close>: one reading of the clock, \<open>None\<close> when the title is empty.\<close>

definition parse_listing_item :: "env \<Rightarrow> located \<Rightarrow> nat \<Rightarrow> listing option" where
  "parse_listing_item env item t =
     (let title = cascade_text title_selectors item;
          url = item_url env item;
          price = cascade_text price_selectors item;
          location = cascade_text location_selectors item;
          description = take 200 (cascade_text desc_selectors item);
          images = item_images env item;
          listing = [(''id'', item_id env url title),
                     (''title'', Str title),
                     (''description'', Str description),
                     (''price'', Str price),
                     (''location'', Str location),
                     (''date'', Str []),
                     (''url'', Str url),
                     (''images'', StrList images),
                     (''parsed_at'', Str (now_iso env t))]
      in if title \<noteq> [] then Some listing else None)"

text \<open>A listing without the time stamp of its creation.\<close>

definition without_parsed_at :: "listing \<Rightarrow> listing" where
  "without_parsed_at l = filter (\<lambda>kv. fst kv \<noteq> ''parsed_at'') l"


section \<open>Sample documents\<close>

text \<open>
  A stand-in for the libraries, used where a definition is evaluated on a concrete
  document: the parser returns the given document, \<open>urljoin\<close> appends the reference to
  the base (what the library does for a reference that is an absolute path), every URL is
  valid, and the clock shows the number of the reading.
\<close>

definition sample_env :: "node list \<Rightarrow> env" where
  "sample_env doc = \<lparr>html_parser = (\<lambda>html. doc), urljoin = (\<lambda>base href. base @ href),
                      validate_url = (\<lambda>url. True), py_hash = (\<lambda>s. 1234567890123),
                      now_iso = str_nat\<rparr>"

text \<open>
  \<open><table class="ml"><tr><th>Ads</th></tr>
     <tr><td><a class="sbj" href="/a/17.html">Bike</a><br>Red bike</td>
         <td align="right"><b>100</b></td></tr></table>\<close>
\<close>

definition row_header :: node where
  "row_header = Element (u ''tr'') [] [Element (u ''th'') [] [Text (u ''Ads'')]]"

definition row_bike :: node where
  "row_bike = Element (u ''tr'') []
     [Element (u ''td'') []
        [Element (u ''a'') [(u ''class'', u ''sbj''), (u ''href'', u ''/a/17.html'')]
           [Text (u ''Bike'')],
         Element (u ''br'') [] [],
         Text (u ''Red bike'')],
      Element (u ''td'') [(u ''align'', u ''right'')] [Element (u ''b'') [] [Text (u ''100'')]]]"

definition doc_table :: "node list" where
  "doc_table = [Element (u ''table'') [(u ''class'', u ''ml'')] [row_header, row_bike]]"

text \<open>A row whose title anchor has an \<open>href\<close> and no text:
  \<open><tr><td><a class="sbj" href="/a/18.html"></a></td></tr>\<close>.\<close>

definition row_untitled :: node where
  "row_untitled = Element (u ''tr'') []
     [Element (u ''td'') []
        [Element (u ''a'') [(u ''class'', u ''sbj''), (u ''href'', u ''/a/18.html'')] []]]"

definition doc_untitled :: "node list" where
  "doc_untitled = [Element (u ''table'') [(u ''class'', u ''ml'')] [row_untitled]]"

text \<open>A row whose title anchor has no \<open>href\<close>:
  \<open><tr><td><a class="sbj">Boat</a></td></tr>\<close>, after a well-formed row.\<close>

definition row_no_href :: node where
  "row_no_href = Element (u ''tr'') []
     [Element (u ''td'') [] [Element (u ''a'') [(u ''class'', u ''sbj'')] [Text (u ''Boat'')]]]"

definition doc_no_href :: "node list" where
  "doc_no_href = [Element (u ''table'') [(u ''class'', u ''ml'')] [row_bike, row_no_href]]"



text \<open>Items for the generic strategy: \<open><div><h2>Sofa</h2><span class="price">5</span></div>\<close>
  has a title and no link; \<open><div><h2> </h2><a href="/x/9">Chair</a></div>\<close> has a
  heading with no text.\<close>

definition item_sofa :: located where
  "item_sofa = ([0], [], Element (u ''div'') []
     [Element (u ''h2'') [] [Text (u ''Sofa'')],
      Element (u ''span'') [(u ''class'', u ''price'')] [Text (u ''5'')]])"

definition item_blank :: located where
  "item_blank = ([0], [], Element (u ''div'') []
     [Element (u ''h2'') [] [Text (u '' '')],
      Element (u ''a'') [(u ''href'', u ''/x/9'')] [Text (u ''Chair'')]])"

section \<open>Notions used to state the properties of the extractor\<close>

text \<open>The value a listing has under a key.\<close>

definition field :: "string \<Rightarrow> listing \<Rightarrow> pyval option" where
  "field k l = map_of l k"

text \<open>The selected title anchor of a row has no \<open>href\<close> attribute.\<close>

definition anchor_without_href :: "located \<Rightarrow> bool" where
  "anchor_without_href row =
     (case select_one sel_title_anchor row of
        None \<Rightarrow> False
      | Some title_elem \<Rightarrow> get_attr title_elem (u ''href'') = None)"


text \<open>
  A listing comes from a row: the row has a title anchor with an \<open>href\<close>, the title of
  the listing is the stripped text of the anchor and its URL is the \<open>href\<close> joined to
  the base URL.
\<close>

definition from_row :: "env \<Rightarrow> located \<Rightarrow> listing \<Rightarrow> bool" where
  "from_row env row l =
     (case select_one sel_title_anchor row of
        None \<Rightarrow> False
      | Some title_elem \<Rightarrow>
          (case get_attr title_elem (u ''href'') of
             None \<Rightarrow> False
           | Some href \<Rightarrow>
               field ''title'' l = Some (Str (get_text_strip title_elem)) \<and>
               field ''url'' l = Some (Str (urljoin env base_url href))))"

text \<open>The listings the sample documents give.\<close>

definition bike_listing :: listing where
  "bike_listing = [(''id'', Str (u ''17'')), (''title'', Str (u ''Bike'')),
                   (''url'', Str (u ''https://www.doski.ru/a/17.html'')),
                   (''price'', Str (u ''100'')), (''description'', Str (u ''Red bike'')),
                   (''parsed_at'', Str (u ''0''))]"

definition sofa_listing :: listing where
  "sofa_listing = [(''id'', Str (u ''1234567890'')), (''title'', Str (u ''Sofa'')),
                   (''description'', Str []), (''price'', Str (u ''5'')),
                   (''location'', Str []), (''date'', Str []), (''url'', Str []),
                   (''images'', StrList []), (''parsed_at'', Str (u ''0''))]"

section \<open>The outside world\<close>

text \<open>
  An HTTP response: the status code and the body text. An object of this class is truthy
  when its status is no error status.
\<close>

record response =
  status_code :: nat
  resp_text :: pystr

type_synonym proxies = "(string \<times> pystr) list"

text \<open>What a browser session does, in the order of the calls.\<close>

datatype browser_event =
    Launch
  | SetPageLoadTimeout nat
  | Navigate pystr
  | Sleep nat
  | ReadPageSource
  | Quit

text \<open>
  The effects of a run that can be observed from outside: the messages sent to the
  Telegram channel, the HTTP requests made (each with the proxies of the session at that
  moment and the URL), the calls on the browser, the listings handed to the storage, and
  the number of times the clock was read.
\<close>

record world =
  sent :: "pystr list"
  gets :: "(proxies \<times> pystr) list"
  browser :: "browser_event list"
  saved :: "listing list"
  ticks :: nat

definition empty_world :: world where
  "empty_world = \<lparr>sent = [], gets = [], browser = [], saved = [], ticks = 0\<rparr>"

text \<open>
  How the collaborators outside the program behave. \<open>robots_parser\<close> is the loaded
  \<open>robots.txt\<close> (\<open>None\<close> when loading failed). \<open>http_get n proxies url\<close> is what the
  \<open>n\<close>-th call of \<open>session.get\<close> does: it raises one of the exceptions of the
  transport or returns a response. \<open>has_socks\<close> says whether \<open>import socks\<close> succeeds.
  The fields for the browser say which call of a session raises, if any, and what the
  rendered page is; \<open>save_fault n\<close> is the exception the storage raises at the \<open>n\<close>-th
  \<open>save_listing\<close>, if any, and \<open>total_count\<close> is what \<open>get_total_count\<close> answers
  after the given listings were saved. \<open>duration_text a b\<close> is the time between the
  clock readings \<open>a\<close> and \<open>b\<close> in seconds, printed with one decimal.
\<close>

record outside =
  robots_parser :: "(pystr \<Rightarrow> bool) option"
  http_get :: "nat \<Rightarrow> proxies \<Rightarrow> pystr \<Rightarrow> request_fault + response"
  has_socks :: bool
  chrome_fault :: "pystr \<Rightarrow> exn option"
  set_timeout_fault :: "pystr \<Rightarrow> exn option"
  navigate_fault :: "pystr \<Rightarrow> exn option"
  page_source :: "pystr \<Rightarrow> exn + pystr"
  quit_fault :: "pystr \<Rightarrow> exn option"
  save_fault :: "nat \<Rightarrow> exn option"
  total_count :: "listing list \<Rightarrow> nat"
  duration_text :: "nat \<Rightarrow> nat \<Rightarrow> pystr"

text \<open>
  \<open>telegram_bot.send_message\<close>: the message joins the messages sent. The call is
  fire-and-forget for the parser; a fault of the channel itself is not modelled.
\<close>

definition send_message :: "pystr \<Rightarrow> world \<Rightarrow> world" where
  "send_message m w = w\<lparr>sent := sent w @ [m]\<rparr>"

section \<open>The resilient fetcher\<close>

text \<open>\<open>_can_fetch\<close>.\<close>

definition can_fetch :: "outside \<Rightarrow> pystr \<Rightarrow> bool" where
  "can_fetch out url = (case robots_parser out of None \<Rightarrow> True | Some rp \<Rightarrow> rp url)"

text \<open>\<open>self.session.get(url, timeout=...)\<close> with the proxies the session has now.\<close>

definition session_get :: "outside \<Rightarrow> pystr \<Rightarrow> parser \<Rightarrow> world \<Rightarrow> (exn + response) \<times> world" where
  "session_get out url st w =
     ((case http_get out (length (gets w)) (session_proxies st) url of
         Inl f \<Rightarrow> Inl (Requests f)
       | Inr r \<Rightarrow> Inr r),
      w\<lparr>gets := gets w @ [(session_proxies st, url)]\<rparr>)"

text \<open>\<open>response.raise_for_status()\<close>: \<open>HTTPError\<close> for a status from 400 to 599.\<close>

definition raise_for_status :: "response \<Rightarrow> exn + response" where
  "raise_for_status r =
     (if 400 \<le> status_code r \<and> status_code r < 600 then Inl (Requests HTTPError) else Inr r)"

text \<open>The two statements of each \<open>try\<close> block: the request, then the status check.\<close>

definition get_checked :: "outside \<Rightarrow> pystr \<Rightarrow> parser \<Rightarrow> world \<Rightarrow> (exn + response) \<times> world" where
  "get_checked out url st w =
     (case session_get out url st w of
        (Inl e, w1) \<Rightarrow> (Inl e, w1)
      | (Inr r, w1) \<Rightarrow> (raise_for_status r, w1))"

text \<open>
  The \<open>except\<close> clauses: \<open>(ProxyError, ConnectionError)\<close> and \<open>RequestException\<close>.
\<close>

fun is_connection_error :: "exn \<Rightarrow> bool" where
  "is_connection_error (Requests ProxyError) = True"
| "is_connection_error (Requests ConnectionError) = True"
| "is_connection_error e = False"

fun is_request_exception :: "exn \<Rightarrow> bool" where
  "is_request_exception (Requests f) = True"
| "is_request_exception e = False"

text \<open>
  The loop \<open>for proxy_attempt in range(max_proxy_retries)\<close>, with the number of
  iterations left. The result \<open>Inr (Some response)\<close> is the \<open>return\<close> inside the
  loop, \<open>Inr None\<close> is the end of the loop (by \<open>break\<close> or after the last iteration)
  and \<open>Inl e\<close> is an exception that no clause catches.
\<close>

fun fetch_attempts ::
  "outside \<Rightarrow> config \<Rightarrow> pystr \<Rightarrow> nat \<Rightarrow> parser \<Rightarrow> world \<Rightarrow>
     (exn + response option) \<times> parser \<times> world" where
  "fetch_attempts out cfg url 0 st w = (Inr None, st, w)"
| "fetch_attempts out cfg url (Suc n) st w =
     (case get_checked out url st w of
        (Inr response, w1) \<Rightarrow> (Inr (Some response), st, w1)
      | (Inl e, w1) \<Rightarrow>
          if is_connection_error e then
            (if proxy_rotate cfg then
               (case rotate_proxy (has_socks out) st of
                  (True, st1) \<Rightarrow> fetch_attempts out cfg url n st1 w1
                | (False, st1) \<Rightarrow> (Inr None, st1, w1))
             else (Inr None, st, w1))
          else if is_request_exception e then (Inr None, st, w1)
          else (Inl e, st, w1))"

definition fetch_failed_message :: "pystr \<Rightarrow> pystr" where
  "fetch_failed_message url = [10060] @ u '' Error fetching '' @ url @ u '': Connection failed''"

text \<open>
  \<open>_fetch_page\<close>. The decorator \<open>rate_limiter\<close> only delays the call and is left out.
\<close>

definition fetch_page ::
  "outside \<Rightarrow> config \<Rightarrow> pystr \<Rightarrow> parser \<Rightarrow> world \<Rightarrow>
     (exn + response option) \<times> parser \<times> world" where
  "fetch_page out cfg url st w =
     (if \<not> can_fetch out url then (Inr None, st, w)
      else
        let max_proxy_retries = (if proxy_list st \<noteq> [] then length (proxy_list st) else 1)
        in (case fetch_attempts out cfg url max_proxy_retries st w of
              (Inl e, st1, w1) \<Rightarrow> (Inl e, st1, w1)
            | (Inr (Some response), st1, w1) \<Rightarrow> (Inr (Some response), st1, w1)
            | (Inr None, st1, w1) \<Rightarrow>
                if session_proxies st1 \<noteq> [] \<and> proxy_enabled cfg then
                  (let old_proxies = session_proxies st1;
                       st2 = st1\<lparr>session_proxies := []\<rparr>
                   in (case get_checked out url st2 w1 of
                         (Inr response, w2) \<Rightarrow> (Inr (Some response), st2, w2)
                       | (Inl e, w2) \<Rightarrow>
                           if is_request_exception e then
                             (Inr None, st2\<lparr>session_proxies := old_proxies\<rparr>,
                              send_message (fetch_failed_message url) w2)
                           else (Inl e, st2, w2)))
                else (Inr None, st1, send_message (fetch_failed_message url) w1)))"

text \<open>The state in which the loop of \<open>_fetch_page\<close> ends.\<close>

definition after_attempts ::
  "outside \<Rightarrow> config \<Rightarrow> pystr \<Rightarrow> parser \<Rightarrow> world \<Rightarrow>
     (exn + response option) \<times> parser \<times> world" where
  "after_attempts out cfg url st w =
     fetch_attempts out cfg url (if proxy_list st \<noteq> [] then length (proxy_list st) else 1) st w"

section \<open>Sample transports\<close>

text \<open>
  A world with no \<open>robots.txt\<close> rules, a browser that works and a storage that works;
  the transport is given.
\<close>

definition sample_outside ::
  "(nat \<Rightarrow> proxies \<Rightarrow> pystr \<Rightarrow> request_fault + response) \<Rightarrow> outside" where
  "sample_outside get =
     \<lparr>robots_parser = None, http_get = get, has_socks = True,
      chrome_fault = (\<lambda>url. None), set_timeout_fault = (\<lambda>url. None),
      navigate_fault = (\<lambda>url. None), page_source = (\<lambda>url. Inr []),
      quit_fault = (\<lambda>url. None), save_fault = (\<lambda>n. None), total_count = length,
      duration_text = (\<lambda>a b. u ''0.0'')\<rparr>"

text \<open>Every request through a proxy fails; a direct request gets the given answer.\<close>

definition proxies_down :: "request_fault + response \<Rightarrow> nat \<Rightarrow> proxies \<Rightarrow> pystr \<Rightarrow> request_fault + response" where
  "proxies_down direct n ps url = (if ps = [] then direct else Inl ProxyError)"

definition ok_response :: response where
  "ok_response = \<lparr>status_code = 200, resp_text = u ''<html></html>''\<rparr>"

definition sample_config :: config where
  "sample_config = \<lparr>proxy_enabled = True, cfg_proxy_list = [u ''http://p1:8080'', u ''http://p2:8080''],
                     proxy_http = None, proxy_https = None, proxy_socks = None,
                     proxy_rotate = True, max_categories_per_session = 5,
                     category_delay = 1\<rparr>"

definition pool2 :: parser where
  "pool2 = setup_proxy True sample_config init_parser"

text \<open>
  The request made when the loop has ended without a response: one more \<open>session.get\<close>
  with no proxies, whose outcome (after the status check) is this.
\<close>

definition direct_attempt :: "outside \<Rightarrow> pystr \<Rightarrow> world \<Rightarrow> exn + response" where
  "direct_attempt out url w1 =
     (case http_get out (length (gets w1)) [] url of
        Inl f \<Rightarrow> Inl (Requests f)
      | Inr r \<Rightarrow> raise_for_status r)"

definition p1_proxies :: proxies where
  "p1_proxies = [(''http'', u ''http://p1:8080''), (''https'', u ''http://p1:8080'')]"

definition p2_proxies :: proxies where
  "p2_proxies = [(''http'', u ''http://p2:8080''), (''https'', u ''http://p2:8080'')]"

definition two_gets :: world where
  "two_gets = empty_world\<lparr>gets := [(p1_proxies, base_url), (p2_proxies, base_url)]\<rparr>"

definition out_direct_ok :: outside where
  "out_direct_ok = sample_outside (proxies_down (Inr ok_response))"

definition out_all_down :: outside where
  "out_all_down = sample_outside (proxies_down (Inl ConnectionError))"

section \<open>Category discovery\<close>

text \<open>
  A category is a dictionary with the keys \<open>name\<close> and \<open>url\<close>; the discovered ones also
  have \<open>found_by\<close>, the built-in ones do not.
\<close>

record category =
  cat_name :: pystr
  cat_url :: pystr
  found_by :: "pystr option"

text \<open>An entry of \<open>all_links\<close>: the keys \<open>href\<close>, \<open>text\<close> and \<open>selector\<close>.\<close>

record link_data =
  ld_href :: pystr
  ld_text :: pystr
  ld_selector :: pystr

text \<open>
  The cascade \<open>category_selectors\<close>. Each entry is the text of the selector, which
  \<open>found_by\<close> records, with the selector it denotes (code point 34 is the double quote).
\<close>

definition href_contains :: "string \<Rightarrow> pystr \<times> selector" where
  "href_contains v =
     (u ''a[href*='' @ [34] @ u v @ [34] @ u '']'',
      [Compound (Some (u ''a'')) [AttrContains (u ''href'') (u v)]])"

definition category_selectors :: "(pystr \<times> selector) list" where
  "category_selectors =
     [href_contains ''/cat-'',
      href_contains ''/category/'',
      href_contains ''/cat/'',
      href_contains ''/section/'',
      href_contains ''/region/'',
      href_contains ''/city/'',
      (u ''.category-link'', [sel_class ''category-link'']),
      (u ''[class*='' @ [34] @ u ''category'' @ [34] @ u ''] a'',
         [sel_class_contains ''category'', sel_tag ''a'']),
      (u ''nav a'', [sel_tag ''nav'', sel_tag ''a'']),
      (u ''.menu a'', [sel_class ''menu'', sel_tag ''a'']),
      (u ''a'', [sel_tag ''a''])]"

definition skip_words :: "pystr list" where
  "skip_words = [u ''mailto:'', u ''tel:'', u ''javascript:'', u ''#'', u ''login'',
                 u ''register'', u ''search'']"

text \<open>\<open>any(skip in href.lower() for skip in [...])\<close>.\<close>

definition excluded :: "pystr \<Rightarrow> bool" where
  "excluded href = list_ex (\<lambda>skip. py_in skip (lower href)) skip_words"

text \<open>The two nested conditions under which a link is appended to \<open>all_links\<close>.\<close>

definition qualifies :: "pystr \<Rightarrow> pystr \<Rightarrow> bool" where
  "qualifies href txt =
     ((href \<noteq> [] \<and> txt \<noteq> [] \<and> length txt > 2 \<and> length txt < 50) \<and> \<not> excluded href)"

text \<open>\<open>link.get('href', '')\<close>.\<close>

definition link_href :: "located \<Rightarrow> pystr" where
  "link_href link = (case get_attr link (u ''href'') of None \<Rightarrow> [] | Some h \<Rightarrow> h)"

text \<open>The inner loop, over the links one selector finds.\<close>

fun collect_links :: "pystr \<Rightarrow> located list \<Rightarrow> link_data list \<Rightarrow> link_data list" where
  "collect_links selector [] all_links = all_links"
| "collect_links selector (link # links) all_links =
     (let href = link_href link;
          txt = get_text_strip link
      in collect_links selector links
           (if qualifies href txt
            then all_links @ [\<lparr>ld_href = href, ld_text = txt, ld_selector = selector\<rparr>]
            else all_links))"

text \<open>The outer loop, over the selectors of the cascade.\<close>

fun collect_all ::
  "node list \<Rightarrow> (pystr \<times> selector) list \<Rightarrow> link_data list \<Rightarrow> link_data list" where
  "collect_all soup [] all_links = all_links"
| "collect_all soup (s # rest) all_links =
     collect_all soup rest (collect_links (fst s) (soup_select (snd s) soup) all_links)"

text \<open>The loop that resolves the links and keeps the valid URLs.\<close>

fun resolve_links :: "env \<Rightarrow> link_data list \<Rightarrow> category list \<Rightarrow> category list" where
  "resolve_links env [] categories = categories"
| "resolve_links env (ld # lds) categories =
     (let category_url = urljoin env base_url (ld_href ld)
      in resolve_links env lds
           (if validate_url env category_url
            then categories @ [\<lparr>cat_name = ld_text ld, cat_url = category_url,
                                found_by = Some (ld_selector ld)\<rparr>]
            else categories))"

text \<open>The loop that removes duplicates, with the set \<open>seen\<close>.\<close>

fun unique_loop :: "category list \<Rightarrow> pystr set \<Rightarrow> category list \<Rightarrow> category list" where
  "unique_loop [] seen unique_categories = unique_categories"
| "unique_loop (cat # cats) seen unique_categories =
     (if cat_url cat \<notin> seen
      then unique_loop cats (insert (cat_url cat) seen) (unique_categories @ [cat])
      else unique_loop cats seen unique_categories)"

definition found_categories :: "env \<Rightarrow> node list \<Rightarrow> category list" where
  "found_categories env soup = resolve_links env (collect_all soup category_selectors []) []"

definition discover :: "env \<Rightarrow> node list \<Rightarrow> category list" where
  "discover env soup = unique_loop (found_categories env soup) {} []"

definition fallback :: "nat list \<Rightarrow> string \<Rightarrow> category" where
  "fallback name path = \<lparr>cat_name = name, cat_url = base_url @ u path, found_by = None\<rparr>"

definition fallback_categories :: "category list" where
  "fallback_categories =
     [fallback [1053, 1077, 1076, 1074, 1080, 1078, 1080, 1084, 1086, 1089, 1090, 1100, 32, 45,
                32, 1050, 1074, 1072, 1088, 1090, 1080, 1088, 1099, 32, 1087, 1088, 1086, 1076,
                1072, 1078, 1072]
        ''/cat-nedvizhimost/zhilaya/kvartiry/prodam/'',
      fallback [1053, 1077, 1076, 1074, 1080, 1078, 1080, 1084, 1086, 1089, 1090, 1100, 32, 45,
                32, 1050, 1074, 1072, 1088, 1090, 1080, 1088, 1099, 32, 1072, 1088, 1077, 1085,
                1076, 1072]
        ''/cat-nedvizhimost/zhilaya/kvartiry/sdau/'',
      fallback [1058, 1088, 1072, 1085, 1089, 1087, 1086, 1088, 1090, 32, 45, 32, 1051, 1077,
                1075, 1082, 1086, 1074, 1099, 1077, 32, 1072, 1074, 1090, 1086]
        ''/cat-transport/legkovye-avtomobili/prodam/'',
      fallback [1053, 1077, 1076, 1074, 1080, 1078, 1080, 1084, 1086, 1089, 1090, 1100, 32, 45,
                32, 1044, 1086, 1084, 1072, 32, 1087, 1088, 1086, 1076, 1072, 1078, 1072]
        ''/cat-nedvizhimost/zhilaya/doma-dachi/prodam/'',
      fallback [1044, 1077, 1090, 1089, 1082, 1080, 1077, 32, 1090, 1086, 1074, 1072, 1088, 1099]
        ''/cat-detskiy-mir/detskaya-odezhda-obuv/detskaya-odezhda/prodam/'',
      fallback [1046, 1080, 1074, 1086, 1090, 1085, 1099, 1077, 32, 45, 32, 1057, 1086, 1073,
                1072, 1082, 1080]
        ''/cat-zhivotnye-i-rasteniya/sobaki/podaru/'',
      fallback [1054, 1076, 1077, 1078, 1076, 1072, 32, 1078, 1077, 1085, 1089, 1082, 1072, 1103]
        ''/cat-lichnye-veschi/odezhda/platya-bluzki-ubki/'',
      fallback [1056, 1072, 1073, 1086, 1090, 1072, 32, 45, 32, 1042, 1072, 1082, 1072, 1085,
                1089, 1080, 1080]
        ''/cat-rabota/vakansii/'']"

definition main_page_message :: pystr where
  "main_page_message = [127968] @ u '' Parsing main page for categories...''"

definition found_message :: "nat \<Rightarrow> pystr" where
  "found_message n = [128194] @ u '' Found '' @ str_nat n @ u '' categories''"

text \<open>The truth value of a response: \<open>Response.ok\<close>.\<close>

definition response_truthy :: "response \<Rightarrow> bool" where
  "response_truthy r = (\<not> (400 \<le> status_code r \<and> status_code r < 600))"

text \<open>\<open>parse_main_page\<close>.\<close>

definition parse_main_page ::
  "env \<Rightarrow> outside \<Rightarrow> config \<Rightarrow> parser \<Rightarrow> world \<Rightarrow> (exn + category list) \<times> parser \<times> world" where
  "parse_main_page env out cfg st w =
     (case fetch_page out cfg base_url st (send_message main_page_message w) of
        (Inl e, st1, w1) \<Rightarrow> (Inl e, st1, w1)
      | (Inr None, st1, w1) \<Rightarrow> (Inr [], st1, w1)
      | (Inr (Some response), st1, w1) \<Rightarrow>
          if \<not> response_truthy response then (Inr [], st1, w1)
          else
            let soup = html_parser env (resp_text response);
                unique_categories = discover env soup;
                chosen = (if length unique_categories < 3 then take 5 fallback_categories
                          else take 5 unique_categories)
            in (Inr chosen, st1, send_message (found_message (length chosen)) w1))"

section \<open>Notions used to state the properties of the discovery\<close>

text \<open>
  The links the cascade matches: each selector text with each link its selector finds,
  selector by selector in the order of the cascade, and in document order within a
  selector.
\<close>

definition per_selector :: "node list \<Rightarrow> pystr \<times> selector \<Rightarrow> (pystr \<times> located) list" where
  "per_selector soup s = map (Pair (fst s)) (soup_select (snd s) soup)"

definition matched_links :: "node list \<Rightarrow> (pystr \<times> located) list" where
  "matched_links soup = concat (map (per_selector soup) category_selectors)"

definition link_qualifies :: "pystr \<times> located \<Rightarrow> bool" where
  "link_qualifies m = qualifies (link_href (snd m)) (get_text_strip (snd m))"

definition link_of :: "pystr \<times> located \<Rightarrow> link_data" where
  "link_of m = \<lparr>ld_href = link_href (snd m), ld_text = get_text_strip (snd m),
                ld_selector = fst m\<rparr>"

definition cat_of :: "env \<Rightarrow> link_data \<Rightarrow> category" where
  "cat_of env ld = \<lparr>cat_name = ld_text ld, cat_url = urljoin env base_url (ld_href ld),
                    found_by = Some (ld_selector ld)\<rparr>"

definition link_valid :: "env \<Rightarrow> link_data \<Rightarrow> bool" where
  "link_valid env ld = validate_url env (urljoin env base_url (ld_href ld))"

definition has_url :: "pystr \<Rightarrow> category \<Rightarrow> bool" where
  "has_url x c = (cat_url c = x)"

text \<open>A matched link is collected and kept, and resolves to the URL \<open>x\<close>.\<close>

definition kept_as :: "env \<Rightarrow> pystr \<Rightarrow> pystr \<times> located \<Rightarrow> bool" where
  "kept_as env x m =
     (link_qualifies m \<and> link_valid env (link_of m) \<and> has_url x (cat_of env (link_of m)))"

text \<open>The first category of each URL, without the accumulator of the loop.\<close>

fun first_by_url :: "category list \<Rightarrow> pystr set \<Rightarrow> category list" where
  "first_by_url [] seen = []"
| "first_by_url (cat # cats) seen =
     (if cat_url cat \<notin> seen then cat # first_by_url cats (insert (cat_url cat) seen)
      else first_by_url cats seen)"

section \<open>Sample pages\<close>

text \<open>A transport that answers every request with an empty page, and no proxies.\<close>

definition out_plain :: outside where
  "out_plain = sample_outside (\<lambda>n ps url. Inr ok_response)"

definition plain_config :: config where
  "plain_config = \<lparr>proxy_enabled = False, cfg_proxy_list = [], proxy_http = None,
                    proxy_https = None, proxy_socks = None, proxy_rotate = False,
                    max_categories_per_session = 5, category_delay = 1\<rparr>"

text \<open>\<open><nav><a href="/cat-a/">Autos</a><a href="/b/">Books</a><a href="/c/">Chairs</a></nav>\<close>\<close>

definition doc_nav :: "node list" where
  "doc_nav = [Element (u ''nav'') []
     [Element (u ''a'') [(u ''href'', u ''/cat-a/'')] [Text (u ''Autos'')],
      Element (u ''a'') [(u ''href'', u ''/b/'')] [Text (u ''Books'')],
      Element (u ''a'') [(u ''href'', u ''/c/'')] [Text (u ''Chairs'')]]]"

definition nav_categories :: "category list" where
  "nav_categories =
     [\<lparr>cat_name = u ''Autos'', cat_url = u ''https://www.doski.ru/cat-a/'',
       found_by = Some (fst (href_contains ''/cat-''))\<rparr>,
      \<lparr>cat_name = u ''Books'', cat_url = u ''https://www.doski.ru/b/'',
       found_by = Some (u ''nav a'')\<rparr>,
      \<lparr>cat_name = u ''Chairs'', cat_url = u ''https://www.doski.ru/c/'',
       found_by = Some (u ''nav a'')\<rparr>]"

text \<open>An anchor with a text and no \<open>href\<close>: \<open><a>Autos</a>\<close>.\<close>

definition doc_plain_anchor :: "node list" where
  "doc_plain_anchor = [Element (u ''a'') [] [Text (u ''Autos'')]]"

definition plain_anchor :: located where
  "plain_anchor = ([0], [], Element (u ''a'') [] [Text (u ''Autos'')])"

definition plain_world :: world where
  "plain_world = (send_message main_page_message empty_world)\<lparr>gets := [([], base_url)]\<rparr>"

section \<open>The dynamic render fetcher\<close>

text \<open>
  One call on the browser: it is recorded, and it raises the given exception, if any.
\<close>

definition browser_call :: "browser_event \<Rightarrow> exn option \<Rightarrow> world \<Rightarrow> exn option \<times> world" where
  "browser_call ev fault w = (fault, w\<lparr>browser := browser w @ [ev]\<rparr>)"

text \<open>
  \<open>get_rendered_html\<close>. The statements run one after the other with no \<open>try\<close>: an
  exception of any call leaves the function at once. \<open>webdriver.Chrome(...)\<close> starts
  the browser, \<open>driver.quit()\<close> ends it.
\<close>

definition get_rendered_html :: "outside \<Rightarrow> pystr \<Rightarrow> nat \<Rightarrow> world \<Rightarrow> (exn + pystr) \<times> world" where
  "get_rendered_html out url timeout w =
     (case browser_call Launch (chrome_fault out url) w of
        (Some e, w1) \<Rightarrow> (Inl e, w1)
      | (None, w1) \<Rightarrow>
     (case browser_call (SetPageLoadTimeout timeout) (set_timeout_fault out url) w1 of
        (Some e, w2) \<Rightarrow> (Inl e, w2)
      | (None, w2) \<Rightarrow>
     (case browser_call (Navigate url) (navigate_fault out url) w2 of
        (Some e, w3) \<Rightarrow> (Inl e, w3)
      | (None, w3) \<Rightarrow>
     (case browser_call (Sleep 3) None w3 of
        (Some e, w4) \<Rightarrow> (Inl e, w4)
      | (None, w4) \<Rightarrow>
     (case (page_source out url, snd (browser_call ReadPageSource None w4)) of
        (Inl e, w5) \<Rightarrow> (Inl e, w5)
      | (Inr html, w5) \<Rightarrow>
     (case browser_call Quit (quit_fault out url) w5 of
        (Some e, w6) \<Rightarrow> (Inl e, w6)
      | (None, w6) \<Rightarrow> (Inr html, w6)))))))"

text \<open>The browser has been started and not ended.\<close>

definition session_open :: "browser_event list \<Rightarrow> bool" where
  "session_open evs = (Launch \<in> set evs \<and> Quit \<notin> set evs)"

section \<open>Parsing one category\<close>

text \<open>
  \<open>str(e)\<close>: the text an exception carries; for \<open>KeyError\<close> the key in quotes. The
  texts of the transport's exceptions are those of the library; their class name stands
  for them here.
\<close>

fun str_exn :: "exn \<Rightarrow> pystr" where
  "str_exn (KeyError k) = [39] @ k @ [39]"
| "str_exn (AttributeError m) = m"
| "str_exn (WebDriverException m) = m"
| "str_exn (StorageError m) = m"
| "str_exn (OtherError m) = m"
| "str_exn (Requests ProxyError) = u ''ProxyError''"
| "str_exn (Requests ConnectionError) = u ''ConnectionError''"
| "str_exn (Requests HTTPError) = u ''HTTPError''"
| "str_exn (Requests OtherRequestException) = u ''RequestException''"

definition start_message :: "pystr \<Rightarrow> pystr" where
  "start_message category_url = [128269] @ u '' Starting to parse: '' @ category_url"

definition selenium_error_message :: "exn \<Rightarrow> pystr" where
  "selenium_error_message e = [10060] @ u '' Selenium error: '' @ str_exn e"

definition parsed_message :: "nat \<Rightarrow> nat \<Rightarrow> pystr" where
  "parsed_message n stored =
     [9989] @ u '' Parsed '' @ str_nat n @ u '' listings from category'' @ [10] @
     [128202] @ u '' Total stored: '' @ str_nat stored"

text \<open>\<open>for listing in listings: self.storage.save_listing(listing)\<close>.\<close>

fun save_all :: "outside \<Rightarrow> listing list \<Rightarrow> world \<Rightarrow> exn option \<times> world" where
  "save_all out [] w = (None, w)"
| "save_all out (l # ls) w =
     (case save_fault out (length (saved w)) of
        Some e \<Rightarrow> (Some e, w)
      | None \<Rightarrow> save_all out ls (w\<lparr>saved := saved w @ [l]\<rparr>))"

text \<open>
  \<open>parse_category\<close>, the method of \<open>DoskiParser\<close>. A fault of the browser is caught
  and gives an empty list. Writing the debug file and extracting the plain text change
  nothing that is used afterwards and are left out. An exception of
  \<open>_extract_listings\<close> or of the storage is not caught here.
\<close>

definition parse_category :: "env \<Rightarrow> outside \<Rightarrow> pystr \<Rightarrow> world \<Rightarrow> (exn + listing list) \<times> world" where
  "parse_category env out category_url w =
     (case get_rendered_html out category_url 20 (send_message (start_message category_url) w) of
        (Inl e, w1) \<Rightarrow> (Inr [], send_message (selenium_error_message e) w1)
      | (Inr html, w1) \<Rightarrow>
          (case extract_listings env html (ticks w1) of
             Inl e \<Rightarrow> (Inl e, w1)
           | Inr listings \<Rightarrow>
               (case save_all out listings (w1\<lparr>ticks := ticks w1 + length listings\<rparr>) of
                  (Some e, w2) \<Rightarrow> (Inl e, w2)
                | (None, w2) \<Rightarrow>
                    (Inr listings,
                     send_message (parsed_message (length listings) (total_count out (saved w2)))
                       w2))))"

section \<open>The full session\<close>

datatype session_result = Completed nat nat pystr | Failed pystr

text \<open>\<open>xs[:m]\<close> for an integer \<open>m\<close>.\<close>

definition py_take :: "int \<Rightarrow> 'a list \<Rightarrow> 'a list" where
  "py_take m xs = (if 0 \<le> m then take (nat m) xs else take (length xs - nat (- m)) xs)"

definition session_start_message :: "pystr \<Rightarrow> pystr" where
  "session_start_message start_time = [128640] @ u '' Starting full parse session at '' @ start_time"

definition category_error_message :: "pystr \<Rightarrow> exn \<Rightarrow> pystr" where
  "category_error_message name e =
     [10060] @ u '' Error parsing category '' @ name @ u '': '' @ str_exn e"

definition session_failed_message :: "exn \<Rightarrow> pystr" where
  "session_failed_message e = [10060] @ u '' Parse session failed: '' @ str_exn e"

definition summary_message :: "nat \<Rightarrow> nat \<Rightarrow> nat \<Rightarrow> nat \<Rightarrow> pystr \<Rightarrow> pystr" where
  "summary_message parsed_categories n_categories total_listings stored duration =
     [9989] @ u '' Parse session completed!'' @ [10] @
     [128202] @ u '' Categories parsed: '' @ str_nat parsed_categories @ u ''/'' @
       str_nat n_categories @ [10] @
     [128221] @ u '' Total listings found: '' @ str_nat total_listings @ [10] @
     [128190] @ u '' Total stored: '' @ str_nat stored @ [10] @
     [9201, 65039] @ u '' Duration: '' @ duration @ u '' seconds''"

text \<open>
  The loop over the categories, with the counters \<open>total_listings\<close> and
  \<open>parsed_categories\<close>. The body is a \<open>try\<close> whose handler catches every exception,
  sends a message and lets the loop go on. The pause between two categories only passes
  time and is left out.
\<close>

fun parse_loop ::
  "env \<Rightarrow> outside \<Rightarrow> category list \<Rightarrow> nat \<Rightarrow> nat \<Rightarrow> world \<Rightarrow> nat \<times> nat \<times> world" where
  "parse_loop env out [] total_listings parsed_categories w =
     (total_listings, parsed_categories, w)"
| "parse_loop env out (category # rest) total_listings parsed_categories w =
     (case parse_category env out (cat_url category) w of
        (Inr listings, w1) \<Rightarrow>
          parse_loop env out rest (total_listings + length listings) (parsed_categories + 1) w1
      | (Inl e, w1) \<Rightarrow>
          parse_loop env out rest total_listings parsed_categories
            (send_message (category_error_message (cat_name category) e) w1))"

text \<open>\<open>full_parse\<close>.\<close>

definition full_parse ::
  "env \<Rightarrow> outside \<Rightarrow> config \<Rightarrow> parser \<Rightarrow> world \<Rightarrow> session_result \<times> parser \<times> world" where
  "full_parse env out cfg st w =
     (let start_time = ticks w;
          w0 = send_message (session_start_message (now_iso env start_time))
                 (w\<lparr>ticks := ticks w + 1\<rparr>)
      in (case parse_main_page env out cfg st w0 of
            (Inl e, st1, w1) \<Rightarrow>
              (Failed (str_exn e), st1, send_message (session_failed_message e) w1)
          | (Inr categories, st1, w1) \<Rightarrow>
              (case parse_loop env out (py_take (max_categories_per_session cfg) categories)
                      0 0 w1 of
                 (total_listings, parsed_categories, w2) \<Rightarrow>
                   let end_time = ticks w2;
                       duration = duration_text out start_time end_time;
                       w3 = w2\<lparr>ticks := ticks w2 + 1\<rparr>
                   in (Completed parsed_categories total_listings duration, st1,
                       send_message
                         (summary_message parsed_categories (length categories) total_listings
                            (total_count out (saved w3)) duration)
                         w3))))"

section \<open>Notions used to state the properties of the session\<close>

text \<open>The categories a session parses: \<open>categories[:max_categories]\<close>.\<close>

definition session_categories :: "config \<Rightarrow> category list \<Rightarrow> category list" where
  "session_categories cfg categories = py_take (max_categories_per_session cfg) categories"

text \<open>
  The outcome of \<open>parse_category\<close> for each category of a run of the loop, in order.
\<close>

fun category_results ::
  "env \<Rightarrow> outside \<Rightarrow> category list \<Rightarrow> world \<Rightarrow> (category \<times> (exn + listing list)) list" where
  "category_results env out [] w = []"
| "category_results env out (category # rest) w =
     (case parse_category env out (cat_url category) w of
        (Inr listings, w1) \<Rightarrow> (category, Inr listings) # category_results env out rest w1
      | (Inl e, w1) \<Rightarrow>
          (category, Inl e) #
          category_results env out rest
            (send_message (category_error_message (cat_name category) e) w1))"

text \<open>The messages for the categories that raised, in order.\<close>

fun fault_messages :: "(category \<times> (exn + listing list)) list \<Rightarrow> pystr list" where
  "fault_messages [] = []"
| "fault_messages ((c, Inl e) # rs) = category_error_message (cat_name c) e # fault_messages rs"
| "fault_messages ((c, Inr ls) # rs) = fault_messages rs"

section \<open>Sample sessions\<close>

text \<open>A browser whose page load times out.\<close>

definition out_page_timeout :: outside where
  "out_page_timeout = out_plain\<lparr>navigate_fault := (\<lambda>url. Some (WebDriverException (u ''timeout'')))\<rparr>"

text \<open>
  A session of two categories. The home page gives no links, so the built-in categories
  are used; the rendered page of the second category has a title anchor with no
  \<open>href\<close>, the page of every other category is the table with the bicycle.
\<close>

definition two_config :: config where
  "two_config = plain_config\<lparr>max_categories_per_session := 2\<rparr>"

definition env_two_pages :: env where
  "env_two_pages = (sample_env [])\<lparr>html_parser :=
     (\<lambda>html. if html = u ''bad'' then doc_no_href
              else if html = u ''good'' then doc_table else [])\<rparr>"

definition second_url :: pystr where
  "second_url = base_url @ u ''/cat-nedvizhimost/zhilaya/kvartiry/sdau/''"

definition out_two_pages :: outside where
  "out_two_pages = out_plain\<lparr>page_source :=
     (\<lambda>url. if url = second_url then Inr (u ''bad'') else Inr (u ''good''))\<rparr>"

definition session_world :: world where
  "session_world =
     empty_world\<lparr>sent := [session_start_message (now_iso env_two_pages 0), main_page_message,
                            found_message 5],
                  gets := [([], base_url)], ticks := 1\<rparr>"

section \<open>Properties of the proxy rotation manager\<close>

lemma set_proxy_keeps:
  "proxy_list (snd (set_proxy h p st)) = proxy_list st"
  "current_proxy_index (snd (set_proxy h p st)) = current_proxy_index st"
  by (simp_all add: set_proxy_def)

lemma rotate_proxy_list: "proxy_list (snd (rotate_proxy h st)) = proxy_list st"
  by (simp add: rotate_proxy_def Let_def set_proxy_keeps)

lemma rotate_proxy_index:
  "2 \<le> length (proxy_list st) \<Longrightarrow>
     current_proxy_index (snd (rotate_proxy h st)) =
       (current_proxy_index st + 1) mod length (proxy_list st)"
  by (auto simp add: rotate_proxy_def Let_def set_proxy_keeps)

lemma rotate_proxy_small:
  "length (proxy_list st) \<le> 1 \<Longrightarrow> rotate_proxy h st = (False, st)"
  by (simp add: rotate_proxy_def)

lemma rotate_times_list: "proxy_list (rotate_times n h st) = proxy_list st"
  by (induction n arbitrary: st) (simp_all add: rotate_proxy_list)

lemma rotate_times_index:
  "2 \<le> length (proxy_list st) \<Longrightarrow>
     current_proxy_index (rotate_times (Suc n) h st) =
       (current_proxy_index st + Suc n) mod length (proxy_list st)"
proof (induction n arbitrary: st)
  case 0
  then show ?case
    by (simp add: rotate_proxy_index)
next
  case (Suc n)
  let ?st1 = "snd (rotate_proxy h st)"
  have len: "length (proxy_list ?st1) = length (proxy_list st)"
    by (simp add: rotate_proxy_list)
  have "current_proxy_index (rotate_times (Suc (Suc n)) h st) =
          current_proxy_index (rotate_times (Suc n) h ?st1)"
    by simp
  also have "\<dots> = (current_proxy_index ?st1 + Suc n) mod length (proxy_list st)"
    using Suc.IH [of ?st1] Suc.prems len by simp
  also have "\<dots> = ((current_proxy_index st + 1) mod length (proxy_list st) + Suc n)
                     mod length (proxy_list st)"
    using Suc.prems by (simp add: rotate_proxy_index)
  also have "\<dots> = ((current_proxy_index st + 1) + Suc n) mod length (proxy_list st)"
    by (rule mod_add_left_eq)
  also have "(current_proxy_index st + 1) + Suc n = current_proxy_index st + Suc (Suc n)"
    by simp
  finally show ?case .
qed

text \<open>
  C5. \<open>_rotate_proxy\<close> changes nothing and returns \<open>False\<close> when the pool has 0 or 1
  entries. With \<open>K \<ge> 2\<close> entries one call moves \<open>current_proxy_index\<close> to its successor
  modulo \<open>K\<close> and leaves the pool as it is, and \<open>K\<close> consecutive calls bring an index
  that lies inside the pool back to its starting value.
\<close>

theorem rotate_proxy_circular:
  "(length (proxy_list st) \<le> 1 \<longrightarrow> rotate_proxy h st = (False, st)) \<and>
   (2 \<le> length (proxy_list st) \<longrightarrow>
      current_proxy_index (snd (rotate_proxy h st)) =
        (current_proxy_index st + 1) mod length (proxy_list st) \<and>
      proxy_list (snd (rotate_proxy h st)) = proxy_list st \<and>
      (current_proxy_index st < length (proxy_list st) \<longrightarrow>
         current_proxy_index (rotate_times (length (proxy_list st)) h st) =
           current_proxy_index st))"
proof (intro conjI impI)
  assume "length (proxy_list st) \<le> 1"
  then show "rotate_proxy h st = (False, st)"
    by (rule rotate_proxy_small)
next
  assume "2 \<le> length (proxy_list st)"
  then show "current_proxy_index (snd (rotate_proxy h st)) =
      (current_proxy_index st + 1) mod length (proxy_list st)"
    by (rule rotate_proxy_index)
next
  show "proxy_list (snd (rotate_proxy h st)) = proxy_list st"
    by (rule rotate_proxy_list)
next
  assume k: "2 \<le> length (proxy_list st)"
    and i: "current_proxy_index st < length (proxy_list st)"
  from k obtain m where m: "length (proxy_list st) = Suc m"
    by (cases "length (proxy_list st)") simp_all
  have "current_proxy_index (rotate_times (Suc m) h st) =
          (current_proxy_index st + Suc m) mod length (proxy_list st)"
    using k by (rule rotate_times_index)
  also have "\<dots> = (current_proxy_index st + length (proxy_list st)) mod length (proxy_list st)"
    by (simp only: m)
  also have "\<dots> = current_proxy_index st"
    using i by simp
  finally show "current_proxy_index (rotate_times (length (proxy_list st)) h st) =
      current_proxy_index st"
    by (simp only: m)
qed

lemma pool3_facts:
  "length (proxy_list pool3) = 3" "current_proxy_index pool3 = 1"
  by (simp_all add: pool3_def)

lemma pool1_facts: "length (proxy_list pool1) = 1"
  by (simp add: pool1_def)

theorem rotate_proxy_circular_witness:
  "length (proxy_list pool1) \<le> 1 \<and> rotate_proxy False pool1 = (False, pool1) \<and>
   2 \<le> length (proxy_list pool3) \<and> current_proxy_index pool3 < length (proxy_list pool3) \<and>
   current_proxy_index (snd (rotate_proxy False pool3)) = 2 \<and>
   current_proxy_index (rotate_times 3 False pool3) = 1"
proof -
  have a: "length (proxy_list pool1) \<le> 1"
    by (simp add: pool1_facts)
  have b: "2 \<le> length (proxy_list pool3)"
    and c: "current_proxy_index pool3 < length (proxy_list pool3)"
    by (simp_all add: pool3_facts)
  from rotate_proxy_circular [of pool1 False] a
  have r1: "rotate_proxy False pool1 = (False, pool1)"
    by blast
  from rotate_proxy_circular [of pool3 False] b c
  have "current_proxy_index (snd (rotate_proxy False pool3)) =
          (current_proxy_index pool3 + 1) mod length (proxy_list pool3)"
    and "current_proxy_index (rotate_times (length (proxy_list pool3)) False pool3) =
          current_proxy_index pool3"
    by blast+
  then have r3: "current_proxy_index (snd (rotate_proxy False pool3)) = 2"
    and r4: "current_proxy_index (rotate_times 3 False pool3) = 1"
    by (simp_all add: pool3_facts)
  from a r1 b c r3 r4 show ?thesis
    by blast
qed

section \<open>Properties of the listing extractor\<close>

lemmas dom_eval = u_def is_space_def strip_def document_def soup_select_def select_def
  select_one_def matches_def sel_rows_def sel_tag_def sel_title_anchor_def sel_price_cell_def
  class_list_def attr_value_def get_attr_def get_text_strip_def find_next_def following_def
  next_sibling_def sel_class_def sel_class_contains_def find_with_def find_all_with_def
  has_tag_attr_def startswith_def py_split_def

lemmas extract_eval = extract_listings_def sample_env_def row_price_def row_description_def
  row_id_def base_url_def field_def anchor_without_href_def

lemmas item_eval = parse_listing_item_def cascade_text_def title_selectors_def
  price_selectors_def location_selectors_def desc_selectors_def item_url_def item_images_def
  item_id_def sample_env_def base_url_def field_def

subsection \<open>The loop over the rows\<close>



lemma extract_rows_from_row:
  "extract_rows env doc t rows acc = Inr ls \<Longrightarrow>
   list_all (\<lambda>l. list_ex (\<lambda>row. from_row env row l) R) acc \<Longrightarrow>
   set rows \<subseteq> set R \<Longrightarrow>
   list_all (\<lambda>l. list_ex (\<lambda>row. from_row env row l) R) ls"
proof (induction rows arbitrary: t acc)
  case Nil
  then show ?case by simp
next
  case (Cons row rows)
  from Cons.prems(3) have inR: "row \<in> set R" and sub: "set rows \<subseteq> set R"
    by simp_all
  show ?case
  proof (cases "select_one sel_title_anchor row")
    case None
    with Cons.prems(1) have "extract_rows env doc t rows acc = Inr ls"
      by simp
    from Cons.IH [OF this Cons.prems(2) sub] show ?thesis .
  next
    case (Some a)
    show ?thesis
    proof (cases "get_attr a (u ''href'')")
      case None
      with Some Cons.prems(1) show ?thesis by simp
    next
      case (Some href)
      let ?l = "[(''id'', Str (row_id (urljoin env base_url href))),
                 (''title'', Str (get_text_strip a)),
                 (''url'', Str (urljoin env base_url href)),
                 (''price'', Str (row_price row)),
                 (''description'', Str (row_description doc a)),
                 (''parsed_at'', Str (now_iso env t))]"
      have "from_row env row ?l"
        using Some \<open>select_one sel_title_anchor row = Some a\<close>
        by (simp add: from_row_def field_def)
      with inR have "list_ex (\<lambda>row. from_row env row ?l) R"
        by (auto simp add: list_ex_iff)
      with Cons.prems(2)
      have acc': "list_all (\<lambda>l. list_ex (\<lambda>row. from_row env row l) R) (acc @ [?l])"
        by simp
      from Cons.prems(1) Some \<open>select_one sel_title_anchor row = Some a\<close>
      have "extract_rows env doc (Suc t) rows (acc @ [?l]) = Inr ls"
        by (simp add: Let_def)
      from Cons.IH [OF this acc' sub] show ?thesis .
    qed
  qed
qed

lemma extract_rows_clock:
  "map without_parsed_at acc1 = map without_parsed_at acc2 \<Longrightarrow>
   map_sum id (map without_parsed_at) (extract_rows (env\<lparr>now_iso := c1\<rparr>) doc t1 rows acc1) =
   map_sum id (map without_parsed_at) (extract_rows (env\<lparr>now_iso := c2\<rparr>) doc t2 rows acc2)"
proof (induction rows arbitrary: t1 t2 acc1 acc2)
  case Nil
  then show ?case by simp
next
  case (Cons row rows)
  show ?case
  proof (cases "select_one sel_title_anchor row")
    case None
    with Cons.IH [OF Cons.prems] show ?thesis by simp
  next
    case (Some a)
    show ?thesis
    proof (cases "get_attr a (u ''href'')")
      case None
      with Some show ?thesis by simp
    next
      case (Some href)
      let ?l = "\<lambda>ts. [(''id'', Str (row_id (urljoin env base_url href))),
                 (''title'', Str (get_text_strip a)),
                 (''url'', Str (urljoin env base_url href)),
                 (''price'', Str (row_price row)),
                 (''description'', Str (row_description doc a)),
                 (''parsed_at'', Str ts)]"
      have "without_parsed_at (?l (c1 t1)) = without_parsed_at (?l (c2 t2))"
        by (simp add: without_parsed_at_def)
      with Cons.prems
      have "map without_parsed_at (acc1 @ [?l (c1 t1)]) =
            map without_parsed_at (acc2 @ [?l (c2 t2)])"
        by simp
      from Cons.IH [OF this, of "Suc t1" "Suc t2"]
      show ?thesis
        using Some \<open>select_one sel_title_anchor row = Some a\<close>
        by (simp add: Let_def)
    qed
  qed
qed

subsection \<open>The sample documents, evaluated\<close>



lemma listings_doc_table:
  "extract_listings (sample_env doc_table) [] 0 =
     Inr [[(''id'', Str (u ''17'')), (''title'', Str (u ''Bike'')),
           (''url'', Str (u ''https://www.doski.ru/a/17.html'')),
           (''price'', Str (u ''100'')), (''description'', Str (u ''Red bike'')),
           (''parsed_at'', Str (u ''0''))]]"
  by (simp add: dom_eval extract_eval doc_table_def row_header_def row_bike_def str_nat.simps)

lemma listings_doc_untitled:
  "extract_listings (sample_env doc_untitled) [] 0 =
     Inr [[(''id'', Str (u ''18'')), (''title'', Str []),
           (''url'', Str (u ''https://www.doski.ru/a/18.html'')),
           (''price'', Str []), (''description'', Str []),
           (''parsed_at'', Str (u ''0''))]]"
  by (simp add: dom_eval extract_eval doc_untitled_def row_untitled_def str_nat.simps)

lemma listing_item_sofa:
  "parse_listing_item (sample_env []) item_sofa 0 =
     Some [(''id'', Str (u ''1234567890'')), (''title'', Str (u ''Sofa'')),
           (''description'', Str []), (''price'', Str (u ''5'')),
           (''location'', Str []), (''date'', Str []), (''url'', Str []),
           (''images'', StrList []), (''parsed_at'', Str (u ''0''))]"
  by (simp add: dom_eval item_eval item_sofa_def str_nat.simps str_int_def)

lemma listing_item_blank:
  "cascade_text title_selectors item_blank = [] \<and>
   parse_listing_item (sample_env []) item_blank 0 = None"
  by (simp add: dom_eval item_eval item_blank_def)

subsection \<open>Titles and URLs of the listings\<close>

text \<open>
  C1, as the code has it. Every listing that \<open>_extract_listings\<close> returns comes from a
  selected row that has a title anchor with an \<open>href\<close>: its title is the stripped text
  of the anchor, whatever that text is, and its URL is the \<open>href\<close> joined to the base
  URL. Every listing that \<open>_parse_listing_item\<close> returns has a non-empty title and the
  URL of the item, which is empty when the item has no anchor with an \<open>href\<close> and is
  the \<open>href\<close> of the first such anchor joined to the base URL otherwise; an item whose
  title comes out empty gives no listing.
\<close>

theorem listing_title_and_url:
  "(extract_listings env html t = Inr ls \<longrightarrow>
      list_all (\<lambda>l. list_ex (\<lambda>row. from_row env row l)
                  (soup_select sel_rows (html_parser env html))) ls) \<and>
   (parse_listing_item env item t = Some l \<longrightarrow>
      (\<exists>title. field ''title'' l = Some (Str title) \<and> title \<noteq> []) \<and>
      field ''url'' l = Some (Str (item_url env item))) \<and>
   (cascade_text title_selectors item = [] \<longrightarrow> parse_listing_item env item t = None) \<and>
   (item_url env item = [] \<or>
      (\<exists>link href. find_with (u ''a'') (u ''href'') item = Some link \<and>
         get_attr link (u ''href'') = Some href \<and>
         item_url env item = urljoin env base_url href))"
proof (intro conjI impI)
  assume "extract_listings env html t = Inr ls"
  then have "extract_rows env (html_parser env html) t
               (soup_select sel_rows (html_parser env html)) [] = Inr ls"
    by (simp add: extract_listings_def Let_def)
  then show "list_all (\<lambda>l. list_ex (\<lambda>row. from_row env row l)
                  (soup_select sel_rows (html_parser env html))) ls"
    by (rule extract_rows_from_row) simp_all
next
  assume "parse_listing_item env item t = Some l"
  then show "\<exists>title. field ''title'' l = Some (Str title) \<and> title \<noteq> []"
    by (auto simp add: parse_listing_item_def Let_def field_def split: if_splits)
next
  assume "parse_listing_item env item t = Some l"
  then show "field ''url'' l = Some (Str (item_url env item))"
    by (auto simp add: parse_listing_item_def Let_def field_def split: if_splits)
next
  assume "cascade_text title_selectors item = []"
  then show "parse_listing_item env item t = None"
    by (simp add: parse_listing_item_def Let_def)
next
  show "item_url env item = [] \<or>
      (\<exists>link href. find_with (u ''a'') (u ''href'') item = Some link \<and>
         get_attr link (u ''href'') = Some href \<and>
         item_url env item = urljoin env base_url href)"
    by (simp add: item_url_def split: option.splits)
qed

theorem listing_title_and_url_witness:
  "extract_listings (sample_env doc_table) [] 0 = Inr [bike_listing] \<and>
   list_all (\<lambda>l. list_ex (\<lambda>row. from_row (sample_env doc_table) row l)
               (soup_select sel_rows (html_parser (sample_env doc_table) []))) [bike_listing] \<and>
   parse_listing_item (sample_env []) item_sofa 0 = Some sofa_listing \<and>
   field ''title'' sofa_listing = Some (Str (u ''Sofa'')) \<and>
   field ''url'' sofa_listing = Some (Str (item_url (sample_env []) item_sofa)) \<and>
   cascade_text title_selectors item_blank = [] \<and>
   parse_listing_item (sample_env []) item_blank 0 = None"
proof -
  have a: "extract_listings (sample_env doc_table) [] 0 = Inr [bike_listing]"
    by (simp only: listings_doc_table bike_listing_def)
  have b: "parse_listing_item (sample_env []) item_sofa 0 = Some sofa_listing"
    by (simp only: listing_item_sofa sofa_listing_def)
  have c: "cascade_text title_selectors item_blank = []"
    by (simp add: listing_item_blank)
  have d: "field ''title'' sofa_listing = Some (Str (u ''Sofa''))"
    by (simp add: field_def sofa_listing_def)
  note t1 = listing_title_and_url [where env = "sample_env doc_table" and html = "[]"
      and t = 0 and ls = "[bike_listing]" and item = item_sofa and l = sofa_listing]
  note t2 = listing_title_and_url [where env = "sample_env []" and html = "[]"
      and t = 0 and ls = "[]" and item = item_sofa and l = sofa_listing]
  note t3 = listing_title_and_url [where env = "sample_env []" and html = "[]"
      and t = 0 and ls = "[]" and item = item_blank and l = sofa_listing]
  from t1 a have e: "list_all (\<lambda>l. list_ex (\<lambda>row. from_row (sample_env doc_table) row l)
               (soup_select sel_rows (html_parser (sample_env doc_table) []))) [bike_listing]"
    by blast
  from t2 b have f: "field ''url'' sofa_listing = Some (Str (item_url (sample_env []) item_sofa))"
    by blast
  from t3 c have g: "parse_listing_item (sample_env []) item_blank 0 = None"
    by blast
  from a e b d f c g show ?thesis
    by blast
qed

text \<open>
  The claim as it was stated fails twice: a row whose title anchor has no text gives a
  listing with an empty title, and an item with a heading and no link gives a listing
  with an empty URL.
\<close>

theorem listing_title_and_url_counterexample:
  "map_sum id (map (field ''title'')) (extract_listings (sample_env doc_untitled) [] 0) =
     Inr [Some (Str [])] \<and>
   map_option (field ''url'') (parse_listing_item (sample_env []) item_sofa 0) =
     Some (Some (Str []))"
  by (simp add: listings_doc_untitled listing_item_sofa field_def)

subsection \<open>Idempotence\<close>

lemma item_url_clock: "item_url (env\<lparr>now_iso := c\<rparr>) item = item_url env item"
  by (simp add: item_url_def split: option.splits)

lemma item_images_clock: "item_images (env\<lparr>now_iso := c\<rparr>) item = item_images env item"
proof -
  have "(\<lambda>img. case get_attr img (u ''src'') of None \<Rightarrow> []
                | Some src \<Rightarrow> [urljoin (env\<lparr>now_iso := c\<rparr>) base_url src]) =
        (\<lambda>img. case get_attr img (u ''src'') of None \<Rightarrow> []
                | Some src \<Rightarrow> [urljoin env base_url src])"
    by (rule ext) (simp split: option.splits)
  then show ?thesis
    by (simp add: item_images_def)
qed

lemma item_id_clock: "item_id (env\<lparr>now_iso := c\<rparr>) url title = item_id env url title"
  by (simp add: item_id_def)

lemma parse_listing_item_clock:
  "map_option without_parsed_at (parse_listing_item (env\<lparr>now_iso := c\<rparr>) item t) =
   (if cascade_text title_selectors item \<noteq> [] then
      Some [(''id'', item_id env (item_url env item) (cascade_text title_selectors item)),
            (''title'', Str (cascade_text title_selectors item)),
            (''description'', Str (take 200 (cascade_text desc_selectors item))),
            (''price'', Str (cascade_text price_selectors item)),
            (''location'', Str (cascade_text location_selectors item)),
            (''date'', Str []),
            (''url'', Str (item_url env item)),
            (''images'', StrList (item_images env item))]
    else None)"
  by (simp add: parse_listing_item_def Let_def without_parsed_at_def item_url_clock
      item_images_clock item_id_clock)

text \<open>
  C2. Two runs of the extractor on the same HTML, with whatever clocks, give the same
  result once \<open>parsed_at\<close> is removed from every listing: the same listings in the same
  order, or the same exception. This holds for \<open>_extract_listings\<close> and for
  \<open>_parse_listing_item\<close>, the latter within one process, where \<open>hash\<close> is a fixed
  function.
\<close>

theorem extraction_idempotent:
  "map_sum id (map without_parsed_at) (extract_listings (env\<lparr>now_iso := c1\<rparr>) html t1) =
   map_sum id (map without_parsed_at) (extract_listings (env\<lparr>now_iso := c2\<rparr>) html t2) \<and>
   map_option without_parsed_at (parse_listing_item (env\<lparr>now_iso := c1\<rparr>) item t1) =
   map_option without_parsed_at (parse_listing_item (env\<lparr>now_iso := c2\<rparr>) item t2)"
proof
  show "map_sum id (map without_parsed_at) (extract_listings (env\<lparr>now_iso := c1\<rparr>) html t1) =
        map_sum id (map without_parsed_at) (extract_listings (env\<lparr>now_iso := c2\<rparr>) html t2)"
    using extract_rows_clock [where ?acc1.0 = "[]" and ?acc2.0 = "[]" and env = env
        and ?c1.0 = c1 and ?c2.0 = c2 and doc = "html_parser env html" and ?t1.0 = t1
        and ?t2.0 = t2 and rows = "soup_select sel_rows (html_parser env html)"]
    by (simp add: extract_listings_def Let_def)
next
  show "map_option without_parsed_at (parse_listing_item (env\<lparr>now_iso := c1\<rparr>) item t1) =
        map_option without_parsed_at (parse_listing_item (env\<lparr>now_iso := c2\<rparr>) item t2)"
    by (simp only: parse_listing_item_clock)
qed

subsection \<open>The missing \<open>href\<close>\<close>








section \<open>Properties of the resilient fetcher\<close>

lemma get_checked_fault:
  "get_checked out url st w = (Inl e, w1) \<Longrightarrow> is_request_exception e"
  by (auto simp add: get_checked_def session_get_def raise_for_status_def
      split: sum.splits if_splits)

lemma get_checked_world:
  "snd (get_checked out url st w) = w\<lparr>gets := gets w @ [(session_proxies st, url)]\<rparr>"
  by (simp add: get_checked_def session_get_def split: sum.splits)

lemma get_checked_result:
  "fst (get_checked out url st w) =
     (case http_get out (length (gets w)) (session_proxies st) url of
        Inl f \<Rightarrow> Inl (Requests f)
      | Inr r \<Rightarrow> raise_for_status r)"
  by (simp add: get_checked_def session_get_def split: sum.splits)

lemma get_checked_sent: "sent (snd (get_checked out url st w)) = sent w"
  by (simp add: get_checked_world)

lemma fetch_attempts_no_escape: "\<not> isl (fst (fetch_attempts out cfg url n st w))"
proof (induction n arbitrary: st w)
  case 0
  show ?case by simp
next
  case (Suc n)
  obtain r w1 where g: "get_checked out url st w = (r, w1)"
    by (cases "get_checked out url st w")
  show ?case
  proof (cases r)
    case (Inr resp)
    with g show ?thesis by simp
  next
    case (Inl e)
    with g have req: "is_request_exception e"
      by (simp add: get_checked_fault)
    obtain ok st1 where rot: "rotate_proxy (has_socks out) st = (ok, st1)"
      by (cases "rotate_proxy (has_socks out) st")
    from Suc.IH [of st1 w1] g Inl req rot show ?thesis
      by (cases ok) simp_all
  qed
qed

lemma fetch_attempts_sent: "sent (snd (snd (fetch_attempts out cfg url n st w))) = sent w"
proof (induction n arbitrary: st w)
  case 0
  show ?case by simp
next
  case (Suc n)
  obtain r w1 where g: "get_checked out url st w = (r, w1)"
    by (cases "get_checked out url st w")
  from get_checked_sent [of out url st w] g have s: "sent w1 = sent w"
    by simp
  show ?case
  proof (cases r)
    case (Inr resp)
    with g s show ?thesis by simp
  next
    case (Inl e)
    obtain ok st1 where rot: "rotate_proxy (has_socks out) st = (ok, st1)"
      by (cases "rotate_proxy (has_socks out) st")
    from Suc.IH [of st1 w1] g Inl rot s show ?thesis
      by (cases ok) simp_all
  qed
qed

text \<open>\<open>_fetch_page\<close>, written out by the outcome of its loop and of the direct request.\<close>

lemma fetch_page_cases:
  assumes "can_fetch out url"
    and "after_attempts out cfg url st w = (r, st1, w1)"
  shows "fetch_page out cfg url st w =
     (case r of
        Inl e \<Rightarrow> (Inl e, st1, w1)
      | Inr (Some response) \<Rightarrow> (Inr (Some response), st1, w1)
      | Inr None \<Rightarrow>
          if session_proxies st1 \<noteq> [] \<and> proxy_enabled cfg then
            (case direct_attempt out url w1 of
               Inr response \<Rightarrow>
                 (Inr (Some response), st1\<lparr>session_proxies := []\<rparr>,
                  w1\<lparr>gets := gets w1 @ [([], url)]\<rparr>)
             | Inl e \<Rightarrow>
                 (Inr None, st1,
                  send_message (fetch_failed_message url) (w1\<lparr>gets := gets w1 @ [([], url)]\<rparr>)))
          else (Inr None, st1, send_message (fetch_failed_message url) w1))"
proof -
  let ?st2 = "st1\<lparr>session_proxies := []\<rparr>"
  obtain d w2 where g: "get_checked out url ?st2 w1 = (d, w2)"
    by (cases "get_checked out url ?st2 w1")
  from get_checked_world [of out url ?st2 w1] g
  have w2: "w2 = w1\<lparr>gets := gets w1 @ [([], url)]\<rparr>"
    by simp
  from get_checked_result [of out url ?st2 w1] g
  have d: "d = direct_attempt out url w1"
    by (simp add: direct_attempt_def)
  from g d have g': "get_checked out url ?st2 w1 = (direct_attempt out url w1, w2)"
    by simp
  have req: "\<And>e. direct_attempt out url w1 = Inl e \<Longrightarrow> is_request_exception e"
    using g' get_checked_fault by metis
  have restore: "?st2\<lparr>session_proxies := session_proxies st1\<rparr> = st1"
    by simp
  from assms(2) have fa: "fetch_attempts out cfg url
      (if proxy_list st \<noteq> [] then length (proxy_list st) else 1) st w = (r, st1, w1)"
    by (simp add: after_attempts_def)
  show ?thesis
  proof (cases r)
    case (Inl e)
    with assms(1) fa show ?thesis
      by (simp add: fetch_page_def Let_def)
  next
    case (Inr ro)
    show ?thesis
    proof (cases ro)
      case (Some response)
      with Inr assms(1) fa show ?thesis
        by (simp add: fetch_page_def Let_def)
    next
      case None
      show ?thesis
      proof (cases "session_proxies st1 \<noteq> [] \<and> proxy_enabled cfg")
        case False
        with None Inr assms(1) fa show ?thesis
          by (auto simp add: fetch_page_def Let_def)
      next
        case True
        show ?thesis
        proof (cases "direct_attempt out url w1")
          case (Inl e)
          with req have "is_request_exception e" by simp
          with Inl True None Inr assms(1) fa g' w2 restore show ?thesis
            by (simp add: fetch_page_def Let_def)
        next
          case (Inr response)
          with True None \<open>r = Inr ro\<close> assms(1) fa g' w2 show ?thesis
            by (simp add: fetch_page_def Let_def)
        qed
      qed
    qed
  qed
qed

subsection \<open>No exception escapes, one notification on failure\<close>

text \<open>
  C3. Whatever the transport does (it raises exceptions of the \<open>requests\<close> library or
  returns a response), \<open>_fetch_page\<close> lets no exception escape: it returns a response
  or \<open>None\<close>. When the URL may be fetched and the result is \<open>None\<close>, exactly one
  message, the failure message for the URL, has been sent to the channel; in every other
  case (a response, or a URL that \<open>robots.txt\<close> forbids) no message has been sent.
\<close>

theorem fetch_page_contract:
  "\<not> isl (fst (fetch_page out cfg url st w)) \<and>
   sent (snd (snd (fetch_page out cfg url st w))) =
     (if can_fetch out url \<and> fst (fetch_page out cfg url st w) = Inr None
      then sent w @ [fetch_failed_message url] else sent w)"
proof (cases "can_fetch out url")
  case False
  then show ?thesis
    by (simp add: fetch_page_def)
next
  case True
  obtain r st1 w1 where aa: "after_attempts out cfg url st w = (r, st1, w1)"
    by (cases "after_attempts out cfg url st w")
  have "\<not> isl (fst (after_attempts out cfg url st w))"
    unfolding after_attempts_def by (rule fetch_attempts_no_escape)
  with aa have r: "\<not> isl r"
    by simp
  have "sent (snd (snd (after_attempts out cfg url st w))) = sent w"
    unfolding after_attempts_def by (rule fetch_attempts_sent)
  with aa have s: "sent w1 = sent w"
    by simp
  note fp = fetch_page_cases [OF True aa]
  show ?thesis
  proof (cases r)
    case (Inl e)
    with r show ?thesis by simp
  next
    case (Inr ro)
    show ?thesis
    proof (cases ro)
      case (Some response)
      with Inr fp True s show ?thesis by simp
    next
      case None
      with Inr fp True s show ?thesis
        by (simp add: send_message_def split: sum.splits)
    qed
  qed
qed

subsection \<open>The direct request after the proxies\<close>

text \<open>
  C8. When the URL may be fetched, the loop over the proxies has ended without a
  response, the session has proxies and proxying is enabled, \<open>_fetch_page\<close> makes
  exactly one more request, with the empty proxy configuration. If that request succeeds
  its response is returned; if it fails the result is \<open>None\<close>, the session has its
  previous proxies again and the failure message has been sent.
\<close>

theorem fetch_page_direct_fallback:
  assumes "can_fetch out url"
    and "after_attempts out cfg url st w = (Inr None, st1, w1)"
    and "session_proxies st1 \<noteq> []"
    and "proxy_enabled cfg"
  shows "gets (snd (snd (fetch_page out cfg url st w))) = gets w1 @ [([], url)] \<and>
     (case direct_attempt out url w1 of
        Inr response \<Rightarrow> fst (fetch_page out cfg url st w) = Inr (Some response)
      | Inl e \<Rightarrow>
          fst (fetch_page out cfg url st w) = Inr None \<and>
          session_proxies (fst (snd (fetch_page out cfg url st w))) = session_proxies st1 \<and>
          sent (snd (snd (fetch_page out cfg url st w))) = sent w1 @ [fetch_failed_message url])"
  using fetch_page_cases [OF assms(1) assms(2)] assms(3) assms(4)
  by (simp add: send_message_def split: sum.splits)

lemma pool2_value:
  "pool2 = \<lparr>proxy_list = [u ''http://p1:8080'', u ''http://p2:8080''],
            current_proxy_index = 0, session_proxies = p1_proxies\<rparr>"
  by (simp add: pool2_def setup_proxy_def sample_config_def init_parser_def set_proxy_def
      startswith_def u_def p1_proxies_def)

lemma rotate_pool2:
  "rotate_proxy True pool2 =
     (True, pool2\<lparr>current_proxy_index := Suc 0, session_proxies := p2_proxies\<rparr>)"
  "rotate_proxy True (pool2\<lparr>current_proxy_index := Suc 0, session_proxies := p2_proxies\<rparr>) =
     (True, pool2)"
  by (simp_all add: pool2_value rotate_proxy_def set_proxy_def startswith_def u_def
      p1_proxies_def p2_proxies_def Let_def)

lemma after_attempts_pool2:
  "after_attempts (sample_outside (proxies_down d)) sample_config base_url pool2 empty_world =
     (Inr None, pool2, two_gets)"
proof -
  have len: "(if proxy_list pool2 \<noteq> [] then length (proxy_list pool2) else 1) = Suc (Suc 0)"
    by (simp add: pool2_value)
  have ps: "session_proxies pool2 = p1_proxies" "p1_proxies \<noteq> []" "p2_proxies \<noteq> []"
    by (simp_all add: pool2_value p1_proxies_def p2_proxies_def)
  have rot: "proxy_rotate sample_config"
    by (simp add: sample_config_def)
  show ?thesis
    unfolding after_attempts_def len
    by (simp add: get_checked_def session_get_def sample_outside_def proxies_down_def
        rotate_pool2 ps rot empty_world_def two_gets_def)
qed

theorem fetch_page_direct_fallback_witness:
  "can_fetch out_direct_ok base_url \<and>
   after_attempts out_direct_ok sample_config base_url pool2 empty_world =
     (Inr None, pool2, two_gets) \<and>
   session_proxies pool2 \<noteq> [] \<and> proxy_enabled sample_config \<and>
   gets (snd (snd (fetch_page out_direct_ok sample_config base_url pool2 empty_world))) =
     gets two_gets @ [([], base_url)] \<and>
   fst (fetch_page out_direct_ok sample_config base_url pool2 empty_world) =
     Inr (Some ok_response) \<and>
   fst (fetch_page out_all_down sample_config base_url pool2 empty_world) = Inr None \<and>
   session_proxies (fst (snd (fetch_page out_all_down sample_config base_url pool2 empty_world))) =
     session_proxies pool2 \<and>
   sent (snd (snd (fetch_page out_all_down sample_config base_url pool2 empty_world))) =
     sent two_gets @ [fetch_failed_message base_url]"
proof -
  have c1: "can_fetch out_direct_ok base_url" and c2: "can_fetch out_all_down base_url"
    by (simp_all add: can_fetch_def out_direct_ok_def out_all_down_def sample_outside_def)
  have a1: "after_attempts out_direct_ok sample_config base_url pool2 empty_world =
      (Inr None, pool2, two_gets)"
    and a2: "after_attempts out_all_down sample_config base_url pool2 empty_world =
      (Inr None, pool2, two_gets)"
    by (simp_all add: out_direct_ok_def out_all_down_def after_attempts_pool2)
  have p: "session_proxies pool2 \<noteq> []"
    by (simp add: pool2_value p1_proxies_def)
  have e: "proxy_enabled sample_config"
    by (simp add: sample_config_def)
  have d1: "direct_attempt out_direct_ok base_url two_gets = Inr ok_response"
    by (simp add: direct_attempt_def out_direct_ok_def sample_outside_def proxies_down_def
        raise_for_status_def ok_response_def)
  have d2: "direct_attempt out_all_down base_url two_gets = Inl (Requests ConnectionError)"
    by (simp add: direct_attempt_def out_all_down_def sample_outside_def proxies_down_def)
  from fetch_page_direct_fallback [OF c1 a1 p e] d1
  have r1: "gets (snd (snd (fetch_page out_direct_ok sample_config base_url pool2 empty_world))) =
      gets two_gets @ [([], base_url)]"
    and r2: "fst (fetch_page out_direct_ok sample_config base_url pool2 empty_world) =
      Inr (Some ok_response)"
    by simp_all
  from fetch_page_direct_fallback [OF c2 a2 p e] d2
  have r3: "fst (fetch_page out_all_down sample_config base_url pool2 empty_world) = Inr None"
    and r4: "session_proxies (fst (snd (fetch_page out_all_down sample_config base_url pool2
        empty_world))) = session_proxies pool2"
    and r5: "sent (snd (snd (fetch_page out_all_down sample_config base_url pool2 empty_world))) =
      sent two_gets @ [fetch_failed_message base_url]"
    by simp_all
  from c1 a1 p e r1 r2 r3 r4 r5 show ?thesis
    by blast
qed

section \<open>Properties of the category discovery\<close>

subsection \<open>The loops, without their accumulators\<close>

lemma collect_links_eq:
  "collect_links src links acc =
     acc @ map link_of (filter link_qualifies (map (Pair src) links))"
  by (induction links arbitrary: acc)
     (simp_all add: Let_def link_qualifies_def link_of_def)

lemma collect_all_eq:
  "collect_all soup sels acc =
     acc @ map link_of (filter link_qualifies (concat (map (per_selector soup) sels)))"
  by (induction sels arbitrary: acc) (simp_all add: collect_links_eq per_selector_def)

lemma resolve_links_eq:
  "resolve_links env lds acc = acc @ map (cat_of env) (filter (link_valid env) lds)"
  by (induction lds arbitrary: acc) (simp_all add: Let_def link_valid_def cat_of_def)

lemma unique_loop_eq: "unique_loop cats seen uc = uc @ first_by_url cats seen"
  by (induction cats arbitrary: seen uc) simp_all

lemma first_by_url_urls:
  "set (map cat_url (first_by_url cats seen)) = set (map cat_url cats) - seen"
  by (induction cats arbitrary: seen) auto

lemma first_by_url_distinct: "distinct (map cat_url (first_by_url cats seen))"
proof (induction cats arbitrary: seen)
  case Nil
  show ?case by simp
next
  case (Cons c cats)
  have "cat_url c \<notin> set (map cat_url (first_by_url cats (insert (cat_url c) seen)))"
    by (simp only: first_by_url_urls) simp
  with Cons.IH show ?case by simp
qed

lemma first_by_url_subseq: "subseq (first_by_url cats seen) cats"
  by (induction cats arbitrary: seen) auto

lemma first_by_url_find:
  "find (has_url x) (first_by_url cats seen) =
     (if x \<in> seen then None else find (has_url x) cats)"
proof (induction cats arbitrary: seen)
  case Nil
  show ?case by simp
next
  case (Cons c cats)
  have h: "has_url x c \<longleftrightarrow> cat_url c = x"
    by (simp add: has_url_def)
  show ?case
    using h by (auto simp add: Cons.IH)
qed

lemma find_of_map: "find P (map f xs) = map_option f (find (\<lambda>y. P (f y)) xs)"
  by (induction xs) simp_all

lemma find_of_filter: "find P (filter Q xs) = find (\<lambda>y. Q y \<and> P y) xs"
  by (induction xs) simp_all

lemma found_categories_eq:
  "found_categories env soup =
     map (cat_of env) (filter (link_valid env)
       (map link_of (filter link_qualifies (matched_links soup))))"
  by (simp add: found_categories_def resolve_links_eq collect_all_eq matched_links_def)

lemma discover_eq: "discover env soup = first_by_url (found_categories env soup) {}"
  by (simp add: discover_def unique_loop_eq)

lemma discover_find:
  "find (has_url x) (discover env soup) =
     map_option (\<lambda>m. cat_of env (link_of m)) (find (kept_as env x) (matched_links soup))"
proof -
  have "find (has_url x) (discover env soup) = find (has_url x) (found_categories env soup)"
    by (simp add: discover_eq first_by_url_find)
  also have "\<dots> = map_option (cat_of env)
      (find (\<lambda>ld. has_url x (cat_of env ld))
         (filter (link_valid env) (map link_of (filter link_qualifies (matched_links soup)))))"
    by (simp only: found_categories_eq find_of_map)
  also have "\<dots> = map_option (cat_of env)
      (find (\<lambda>ld. link_valid env ld \<and> has_url x (cat_of env ld))
         (map link_of (filter link_qualifies (matched_links soup))))"
    by (simp only: find_of_filter)
  also have "\<dots> = map_option (cat_of env) (map_option link_of
      (find (\<lambda>m. link_valid env (link_of m) \<and> has_url x (cat_of env (link_of m)))
         (filter link_qualifies (matched_links soup))))"
    by (simp only: find_of_map)
  also have "\<dots> = map_option (cat_of env) (map_option link_of
      (find (\<lambda>m. link_qualifies m \<and> link_valid env (link_of m) \<and>
                  has_url x (cat_of env (link_of m)))
         (matched_links soup)))"
    by (simp only: find_of_filter)
  also have "\<dots> = map_option (\<lambda>m. cat_of env (link_of m))
      (find (kept_as env x) (matched_links soup))"
    by (simp add: kept_as_def [abs_def] option.map_comp comp_def)
  finally show ?thesis .
qed

subsection \<open>What the discovery collects\<close>

text \<open>
  C7, as the code has it. The links collected are exactly the links the cascade matches
  (selector by selector, in order) that have a non-empty \<open>href\<close>, a visible text of 3
  to 49 characters and an \<open>href\<close> that, in lower case, contains none of the exclusion
  substrings. The categories are the collected links whose resolved URL is valid. The
  result has no URL twice, has every URL of the categories, and keeps their order; the
  category it has for a URL is made from the first matched link, in the order of the
  cascade, that is collected and kept with this URL, so its \<open>found_by\<close> is the selector
  that link was matched by.
\<close>

theorem category_discovery:
  "collect_all soup category_selectors [] =
     map link_of (filter link_qualifies (matched_links soup)) \<and>
   link_qualifies m =
     (link_href (snd m) \<noteq> [] \<and> 3 \<le> length (get_text_strip (snd m)) \<and>
      length (get_text_strip (snd m)) \<le> 49 \<and> \<not> excluded (link_href (snd m))) \<and>
   found_categories env soup =
     map (cat_of env) (filter (link_valid env) (collect_all soup category_selectors [])) \<and>
   distinct (map cat_url (discover env soup)) \<and>
   set (map cat_url (discover env soup)) = set (map cat_url (found_categories env soup)) \<and>
   subseq (discover env soup) (found_categories env soup) \<and>
   find (has_url x) (discover env soup) =
     map_option (\<lambda>m. cat_of env (link_of m)) (find (kept_as env x) (matched_links soup))"
proof (intro conjI)
  show "collect_all soup category_selectors [] =
      map link_of (filter link_qualifies (matched_links soup))"
    by (simp add: collect_all_eq matched_links_def)
  show "link_qualifies m =
     (link_href (snd m) \<noteq> [] \<and> 3 \<le> length (get_text_strip (snd m)) \<and>
      length (get_text_strip (snd m)) \<le> 49 \<and> \<not> excluded (link_href (snd m)))"
    by (auto simp add: link_qualifies_def qualifies_def)
  show "found_categories env soup =
      map (cat_of env) (filter (link_valid env) (collect_all soup category_selectors []))"
    by (simp add: found_categories_def resolve_links_eq)
  show "distinct (map cat_url (discover env soup))"
    by (simp only: discover_eq first_by_url_distinct)
  show "set (map cat_url (discover env soup)) = set (map cat_url (found_categories env soup))"
    by (simp only: discover_eq first_by_url_urls) simp
  show "subseq (discover env soup) (found_categories env soup)"
    by (simp only: discover_eq first_by_url_subseq)
  show "find (has_url x) (discover env soup) =
      map_option (\<lambda>m. cat_of env (link_of m)) (find (kept_as env x) (matched_links soup))"
    by (rule discover_find)
qed

lemmas discovery_eval = discover_def found_categories_def category_selectors_def
  href_contains_def qualifies_def excluded_def skip_words_def link_href_def lower_def
  lower_cp_def sample_env_def base_url_def Let_def

lemma discover_doc_nav: "discover (sample_env doc_nav) doc_nav = nav_categories"
  by (simp add: dom_eval discovery_eval doc_nav_def nav_categories_def)

lemma discover_empty: "discover env [] = []"
  by (simp add: dom_eval discovery_eval)

text \<open>
  The claim as it was stated fails for an anchor with no \<open>href\<close>: the catch-all
  selector matches it, its text has 5 characters and its (empty) \<open>href\<close> contains
  no exclusion substring, and it is not collected.
\<close>

theorem category_discovery_counterexample:
  "soup_select [sel_tag ''a''] doc_plain_anchor = [plain_anchor] \<and>
   length (get_text_strip plain_anchor) = 5 \<and>
   \<not> excluded (link_href plain_anchor) \<and>
   collect_all doc_plain_anchor category_selectors [] = []"
  by (simp add: dom_eval discovery_eval doc_plain_anchor_def plain_anchor_def)

subsection \<open>The fallback categories\<close>

lemma get_checked_truthy:
  "get_checked out url st w = (Inr r, w1) \<Longrightarrow> response_truthy r"
  by (auto simp add: get_checked_def session_get_def raise_for_status_def response_truthy_def
      split: sum.splits if_splits)

lemma fetch_attempts_truthy:
  "fetch_attempts out cfg url n st w = (Inr (Some r), st1, w1) \<Longrightarrow> response_truthy r"
proof (induction n arbitrary: st w)
  case 0
  then show ?case by simp
next
  case (Suc n)
  obtain d w2 where g: "get_checked out url st w = (d, w2)"
    by (cases "get_checked out url st w")
  show ?case
  proof (cases d)
    case (Inr resp)
    with g Suc.prems have "resp = r" by simp
    with g Inr show ?thesis
      by (simp add: get_checked_truthy)
  next
    case (Inl e)
    obtain ok st2 where rot: "rotate_proxy (has_socks out) st = (ok, st2)"
      by (cases "rotate_proxy (has_socks out) st")
    from Suc.prems g Inl rot have "fetch_attempts out cfg url n st2 w2 = (Inr (Some r), st1, w1)"
      by (cases ok) (simp_all split: if_splits)
    then show ?thesis by (rule Suc.IH)
  qed
qed

lemma direct_attempt_truthy: "direct_attempt out url w = Inr r \<Longrightarrow> response_truthy r"
  by (auto simp add: direct_attempt_def raise_for_status_def response_truthy_def
      split: sum.splits if_splits)

lemma fetch_page_truthy:
  assumes "fetch_page out cfg url st w = (Inr (Some r), st1, w1)"
  shows "response_truthy r"
proof (cases "can_fetch out url")
  case False
  with assms show ?thesis
    by (simp add: fetch_page_def)
next
  case True
  obtain a st2 w2 where aa: "after_attempts out cfg url st w = (a, st2, w2)"
    by (cases "after_attempts out cfg url st w")
  note fp = fetch_page_cases [OF True aa]
  show ?thesis
  proof (cases a)
    case (Inl e)
    with fp assms show ?thesis by simp
  next
    case (Inr ro)
    show ?thesis
    proof (cases ro)
      case (Some resp)
      with Inr fp assms have "resp = r" by simp
      with Some Inr aa show ?thesis
        using fetch_attempts_truthy by (simp add: after_attempts_def)
    next
      case None
      with Inr fp assms show ?thesis
        by (auto simp add: direct_attempt_truthy split: if_splits sum.splits)
    qed
  qed
qed

text \<open>
  C6. When the home page has been fetched, \<open>parse_main_page\<close> returns the first 5 of
  the 8 built-in categories if fewer than 3 unique categories were discovered, and the
  first 5 discovered categories, in their order, otherwise.
\<close>

theorem parse_main_page_fallback:
  assumes "fetch_page out cfg base_url st (send_message main_page_message w) =
             (Inr (Some response), st1, w1)"
  shows "fst (parse_main_page env out cfg st w) =
           Inr (if length (discover env (html_parser env (resp_text response))) < 3
                then take 5 fallback_categories
                else take 5 (discover env (html_parser env (resp_text response)))) \<and>
         length fallback_categories = 8 \<and> length (take 5 fallback_categories) = 5"
proof -
  from assms have "response_truthy response"
    by (rule fetch_page_truthy)
  with assms show ?thesis
    by (simp add: parse_main_page_def Let_def fallback_categories_def)
qed

lemma fetch_page_plain:
  "fetch_page out_plain plain_config base_url init_parser (send_message main_page_message empty_world) =
     (Inr (Some ok_response), init_parser, plain_world)"
  by (simp add: fetch_page_def can_fetch_def out_plain_def sample_outside_def init_parser_def
      get_checked_def session_get_def raise_for_status_def ok_response_def plain_world_def
      send_message_def empty_world_def)

theorem parse_main_page_fallback_witness:
  "fetch_page out_plain plain_config base_url init_parser (send_message main_page_message empty_world) =
     (Inr (Some ok_response), init_parser, plain_world) \<and>
   fst (parse_main_page (sample_env []) out_plain plain_config init_parser empty_world) =
     Inr (take 5 fallback_categories) \<and>
   fst (parse_main_page (sample_env doc_nav) out_plain plain_config init_parser empty_world) =
     Inr nav_categories"
proof -
  note f = fetch_page_plain
  have n: "length nav_categories = 3"
    by (simp add: nav_categories_def)
  have p0: "html_parser (sample_env []) (resp_text ok_response) = []"
    and p1: "html_parser (sample_env doc_nav) (resp_text ok_response) = doc_nav"
    by (simp_all add: sample_env_def)
  from parse_main_page_fallback [OF f, of "sample_env []"]
  have a: "fst (parse_main_page (sample_env []) out_plain plain_config init_parser empty_world) =
      Inr (take 5 fallback_categories)"
    by (simp add: p0 discover_empty)
  from parse_main_page_fallback [OF f, of "sample_env doc_nav"]
  have b: "fst (parse_main_page (sample_env doc_nav) out_plain plain_config init_parser
      empty_world) = Inr nav_categories"
    by (simp add: p1 discover_doc_nav n)
  from f a b show ?thesis
    by blast
qed

section \<open>Properties of the render fetcher and of the session\<close>

subsection \<open>The browser session\<close>

text \<open>
  C4 does not hold for the code. When the page load raises, \<open>get_rendered_html\<close>
  passes the exception on after three calls on the browser, and \<open>quit\<close> is not among
  them: the browser that was started is still there.
\<close>

theorem get_rendered_html_leaves_browser:
  "get_rendered_html out_page_timeout base_url 20 empty_world =
     (Inl (WebDriverException (u ''timeout'')),
      empty_world\<lparr>browser := [Launch, SetPageLoadTimeout 20, Navigate base_url]\<rparr>) \<and>
   session_open (browser (snd (get_rendered_html out_page_timeout base_url 20 empty_world)))"
  by (simp add: get_rendered_html_def browser_call_def out_page_timeout_def out_plain_def
      sample_outside_def empty_world_def session_open_def)

lemma get_rendered_html_sent: "sent (snd (get_rendered_html out url t w)) = sent w"
  by (simp add: get_rendered_html_def browser_call_def split: option.splits sum.splits)

lemma get_rendered_html_quit:
  "fst (get_rendered_html out url t w) = Inr html \<Longrightarrow>
     Quit \<in> set (browser (snd (get_rendered_html out url t w)))"
  by (auto simp add: get_rendered_html_def browser_call_def split: option.splits sum.splits)

subsection \<open>Messages of one category\<close>

lemma save_all_sent: "sent (snd (save_all out ls w)) = sent w"
  by (induction ls arbitrary: w) (simp_all split: option.splits)

lemma parse_category_sent:
  "\<exists>rest. sent (snd (parse_category env out url w)) = sent w @ start_message url # rest"
proof -
  let ?w0 = "send_message (start_message url) w"
  obtain r w1 where g: "get_rendered_html out url 20 ?w0 = (r, w1)"
    by (cases "get_rendered_html out url 20 ?w0")
  from get_rendered_html_sent [of out url 20 ?w0] g
  have s1: "sent w1 = sent w @ [start_message url]"
    by (simp add: send_message_def)
  show ?thesis
  proof (cases r)
    case (Inl e)
    with g s1 show ?thesis
      by (simp add: parse_category_def send_message_def)
  next
    case (Inr html)
    show ?thesis
    proof (cases "extract_listings env html (ticks w1)")
      case (Inl e)
      with Inr g s1 show ?thesis
        by (simp add: parse_category_def)
    next
      case ok: (Inr listings)
      let ?w1 = "w1\<lparr>ticks := ticks w1 + length listings\<rparr>"
      obtain f w2 where sv: "save_all out listings ?w1 = (f, w2)"
        by (cases "save_all out listings ?w1")
      from save_all_sent [of out listings ?w1] sv s1
      have s2: "sent w2 = sent w @ [start_message url]"
        by simp
      from Inr ok g sv s2 show ?thesis
        by (cases f) (simp_all add: parse_category_def send_message_def)
    qed
  qed
qed

subsection \<open>The loop over the categories\<close>

lemma category_results_cats: "map fst (category_results env out cats w) = cats"
proof (induction cats arbitrary: w)
  case Nil
  show ?case by simp
next
  case (Cons c cats)
  obtain r w1 where pc: "parse_category env out (cat_url c) w = (r, w1)"
    by (cases "parse_category env out (cat_url c) w")
  with Cons.IH show ?case
    by (cases r) simp_all
qed

lemma parse_loop_count:
  "fst (snd (parse_loop env out cats t p w)) =
     p + length (filter (\<lambda>r. \<not> isl (snd r)) (category_results env out cats w))"
proof (induction cats arbitrary: t p w)
  case Nil
  show ?case by simp
next
  case (Cons c cats)
  obtain r w1 where pc: "parse_category env out (cat_url c) w = (r, w1)"
    by (cases "parse_category env out (cat_url c) w")
  with Cons.IH show ?case
    by (cases r) simp_all
qed

lemma parse_loop_messages:
  "\<exists>new. sent (snd (snd (parse_loop env out cats t p w))) = sent w @ new \<and>
     subseq (map (\<lambda>c. start_message (cat_url c)) cats) new \<and>
     subseq (fault_messages (category_results env out cats w)) new"
proof (induction cats arbitrary: t p w)
  case Nil
  show ?case by simp
next
  case (Cons c cats)
  obtain r w1 where pc: "parse_category env out (cat_url c) w = (r, w1)"
    by (cases "parse_category env out (cat_url c) w")
  from parse_category_sent [of env out "cat_url c" w] pc
  obtain rest where s1: "sent w1 = sent w @ start_message (cat_url c) # rest"
    by auto
  show ?case
  proof (cases r)
    case (Inr listings)
    from Cons.IH [of "t + length listings" "p + 1" w1]
    obtain new where
      n1: "sent (snd (snd (parse_loop env out cats (t + length listings) (p + 1) w1))) =
             sent w1 @ new"
      and n2: "subseq (map (\<lambda>c. start_message (cat_url c)) cats) new"
      and n3: "subseq (fault_messages (category_results env out cats w1)) new"
      by blast
    let ?new = "start_message (cat_url c) # rest @ new"
    have a: "sent (snd (snd (parse_loop env out (c # cats) t p w))) = sent w @ ?new"
      using pc Inr n1 s1 by simp
    have b: "subseq (map (\<lambda>c. start_message (cat_url c)) (c # cats)) ?new"
      using n2 by (simp add: list_emb_append2)
    have "subseq (fault_messages (category_results env out cats w1)) (rest @ new)"
      using n3 by (simp add: list_emb_append2)
    then have "subseq (fault_messages (category_results env out cats w1)) ?new"
      by (rule list_emb_Cons)
    then have c: "subseq (fault_messages (category_results env out (c # cats) w)) ?new"
      using pc Inr by simp
    from a b c show ?thesis by blast
  next
    case (Inl e)
    let ?err = "category_error_message (cat_name c) e"
    let ?w1 = "send_message ?err w1"
    from Cons.IH [of t p ?w1]
    obtain new where
      n1: "sent (snd (snd (parse_loop env out cats t p ?w1))) = sent ?w1 @ new"
      and n2: "subseq (map (\<lambda>c. start_message (cat_url c)) cats) new"
      and n3: "subseq (fault_messages (category_results env out cats ?w1)) new"
      by blast
    let ?new = "start_message (cat_url c) # rest @ ?err # new"
    have a: "sent (snd (snd (parse_loop env out (c # cats) t p w))) = sent w @ ?new"
      using pc Inl n1 s1 by (simp add: send_message_def)
    from n2 have "subseq (map (\<lambda>c. start_message (cat_url c)) cats) (?err # new)"
      by (rule list_emb_Cons)
    then have "subseq (map (\<lambda>c. start_message (cat_url c)) cats) (rest @ ?err # new)"
      by (rule list_emb_append2)
    then have b: "subseq (map (\<lambda>c. start_message (cat_url c)) (c # cats)) ?new"
      by simp
    from n3 have "subseq (?err # fault_messages (category_results env out cats ?w1)) (?err # new)"
      by simp
    then have "subseq (?err # fault_messages (category_results env out cats ?w1))
        (rest @ ?err # new)"
      by (rule list_emb_append2)
    then have "subseq (?err # fault_messages (category_results env out cats ?w1)) ?new"
      by (rule list_emb_Cons)
    then have c: "subseq (fault_messages (category_results env out (c # cats) w)) ?new"
      using pc Inl by simp
    from a b c show ?thesis by blast
  qed
qed

subsection \<open>A fault in one category\<close>

text \<open>
  C9. When the categories have been found, the session completes whatever happens in
  the categories: \<open>full_parse\<close> returns its summary, never the failure of the session.
  Every category up to the configured maximum is parsed, in order, also after a category
  that raised; the number of categories counted as parsed is the number that did not
  raise, and for each category that raised its error message has been sent.
\<close>

theorem full_parse_survives_faults:
  assumes "parse_main_page env out cfg st
             (send_message (session_start_message (now_iso env (ticks w)))
                (w\<lparr>ticks := ticks w + 1\<rparr>)) = (Inr categories, st1, w1)"
  shows "(\<exists>total d. fst (full_parse env out cfg st w) =
            Completed (length (filter (\<lambda>r. \<not> isl (snd r))
                         (category_results env out (session_categories cfg categories) w1)))
              total d) \<and>
     map fst (category_results env out (session_categories cfg categories) w1) =
       session_categories cfg categories \<and>
     subseq (map (\<lambda>c. start_message (cat_url c)) (session_categories cfg categories))
       (sent (snd (snd (full_parse env out cfg st w)))) \<and>
     subseq (fault_messages (category_results env out (session_categories cfg categories) w1))
       (sent (snd (snd (full_parse env out cfg st w))))"
proof -
  let ?cats = "session_categories cfg categories"
  obtain total parsed w2 where pl: "parse_loop env out ?cats 0 0 w1 = (total, parsed, w2)"
    by (cases "parse_loop env out ?cats 0 0 w1")
  from parse_loop_count [of env out ?cats 0 0 w1] pl
  have cnt: "parsed = length (filter (\<lambda>r. \<not> isl (snd r)) (category_results env out ?cats w1))"
    by simp
  from parse_loop_messages [of env out ?cats 0 0 w1] pl
  obtain new where n1: "sent w2 = sent w1 @ new"
    and n2: "subseq (map (\<lambda>c. start_message (cat_url c)) ?cats) new"
    and n3: "subseq (fault_messages (category_results env out ?cats w1)) new"
    by auto
  let ?summary = "summary_message parsed (length categories) total
      (total_count out (saved w2)) (duration_text out (ticks w) (ticks w2))"
  from assms pl have res: "fst (full_parse env out cfg st w) =
      Completed parsed total (duration_text out (ticks w) (ticks w2))"
    by (simp add: full_parse_def Let_def session_categories_def)
  from assms pl n1 have fin: "sent (snd (snd (full_parse env out cfg st w))) =
      sent w1 @ new @ [?summary]"
    by (simp add: full_parse_def Let_def session_categories_def send_message_def)
  have emb: "\<And>xs. subseq xs new \<Longrightarrow> subseq xs (sent w1 @ new @ [?summary])"
    by (rule list_emb_append2) (rule list_emb_prefix)
  from res cnt have "\<exists>total d. fst (full_parse env out cfg st w) =
      Completed (length (filter (\<lambda>r. \<not> isl (snd r)) (category_results env out ?cats w1)))
        total d"
    by simp
  moreover have "map fst (category_results env out ?cats w1) = ?cats"
    by (rule category_results_cats)
  moreover from n2 fin emb
  have "subseq (map (\<lambda>c. start_message (cat_url c)) ?cats)
      (sent (snd (snd (full_parse env out cfg st w))))"
    by simp
  moreover from n3 fin emb
  have "subseq (fault_messages (category_results env out ?cats w1))
      (sent (snd (snd (full_parse env out cfg st w))))"
    by simp
  ultimately show ?thesis
    by blast
qed

subsection \<open>A session of two categories\<close>

lemma two_pages:
  "html_parser env_two_pages (u ''good'') = doc_table"
  "html_parser env_two_pages (u ''bad'') = doc_no_href"
  "html_parser env_two_pages (resp_text ok_response) = []"
  by (simp_all add: env_two_pages_def sample_env_def u_def ok_response_def)

lemma fallback_length: "length fallback_categories = 8"
  by (simp add: fallback_categories_def)

lemma main_page_two: "parse_main_page env_two_pages out_two_pages two_config init_parser
     (send_message (session_start_message (now_iso env_two_pages (ticks empty_world)))
        (empty_world\<lparr>ticks := ticks empty_world + 1\<rparr>)) =
   (Inr (take 5 fallback_categories), init_parser, session_world)"
  by (simp add: parse_main_page_def fetch_page_def can_fetch_def out_two_pages_def out_plain_def
      sample_outside_def init_parser_def get_checked_def session_get_def raise_for_status_def
      response_truthy_def two_pages discover_empty Let_def send_message_def empty_world_def
      session_world_def fallback_length)
     (simp add: ok_response_def)

lemma session_categories_two: "session_categories two_config (take 5 fallback_categories) =
   [fallback_categories ! 0, fallback_categories ! 1]"
  by (simp add: session_categories_def two_config_def plain_config_def py_take_def
      fallback_categories_def)

lemma two_urls:
  "cat_url (fallback_categories ! 0) \<noteq> second_url"
  "cat_url (fallback_categories ! Suc 0) = second_url"
  by (simp_all add: fallback_categories_def fallback_def second_url_def u_def)

lemma extract_good_page: "map_sum id length (extract_listings env_two_pages (u ''good'') t) = Inr 1"
  unfolding extract_listings_def two_pages
  by (simp add: dom_eval Let_def doc_table_def row_header_def row_bike_def)

lemma extract_bad_page: "extract_listings env_two_pages (u ''bad'') t = Inl (KeyError (u ''href''))"
  unfolding extract_listings_def two_pages
  by (simp add: dom_eval Let_def doc_no_href_def row_no_href_def row_bike_def)

lemma render_two:
  "get_rendered_html out_two_pages url t w =
     (page_source out_two_pages url,
      w\<lparr>browser := browser w @ [Launch, SetPageLoadTimeout t, Navigate url, Sleep 3,
                                 ReadPageSource, Quit]\<rparr>)"
  by (simp add: get_rendered_html_def browser_call_def out_two_pages_def out_plain_def
      sample_outside_def)

lemma parse_category_bad:
  "parse_category env_two_pages out_two_pages second_url w =
     (Inl (KeyError (u ''href'')),
      w\<lparr>sent := sent w @ [start_message second_url],
        browser := browser w @ [Launch, SetPageLoadTimeout 20, Navigate second_url, Sleep 3,
                                 ReadPageSource, Quit]\<rparr>)"
  by (simp add: parse_category_def render_two send_message_def extract_bad_page)
     (simp add: out_two_pages_def extract_bad_page)

lemma save_all_two:
  "save_all out_two_pages ls w = (None, w\<lparr>saved := saved w @ ls\<rparr>)"
proof (induction ls arbitrary: w)
  case Nil
  show ?case by simp
next
  case (Cons l ls)
  have "save_fault out_two_pages (length (saved w)) = None"
    by (simp add: out_two_pages_def out_plain_def sample_outside_def)
  with Cons.IH show ?case by simp
qed

lemma parse_category_good:
  assumes "url \<noteq> second_url"
  shows "\<not> isl (fst (parse_category env_two_pages out_two_pages url w))"
proof -
  from assms have ps: "page_source out_two_pages url = Inr (u ''good'')"
    by (simp add: out_two_pages_def)
  from extract_good_page [of "ticks w"] obtain listings
    where ex: "extract_listings env_two_pages (u ''good'') (ticks w) = Inr listings"
    by (cases "extract_listings env_two_pages (u ''good'') (ticks w)") simp_all
  show ?thesis
    by (simp add: parse_category_def render_two ps send_message_def ex save_all_two)
qed

lemma results_two:
  "\<exists>r. \<not> isl r \<and>
     category_results env_two_pages out_two_pages
       [fallback_categories ! 0, fallback_categories ! 1] w =
     [(fallback_categories ! 0, r), (fallback_categories ! 1, Inl (KeyError (u ''href'')))]"
proof -
  let ?c0 = "fallback_categories ! 0"
  obtain r w1 where pc: "parse_category env_two_pages out_two_pages (cat_url ?c0) w = (r, w1)"
    by (cases "parse_category env_two_pages out_two_pages (cat_url ?c0) w")
  from parse_category_good [OF two_urls(1), of w] pc have r: "\<not> isl r"
    by simp
  then obtain ls where ls: "r = Inr ls"
    by (cases r) simp_all
  from pc ls show ?thesis
    by (simp add: two_urls(2) parse_category_bad)
qed


theorem full_parse_survives_faults_witness:
  "parse_main_page env_two_pages out_two_pages two_config init_parser
     (send_message (session_start_message (now_iso env_two_pages (ticks empty_world)))
        (empty_world\<lparr>ticks := ticks empty_world + 1\<rparr>)) =
   (Inr (take 5 fallback_categories), init_parser, session_world) \<and>
   (\<exists>total d. fst (full_parse env_two_pages out_two_pages two_config init_parser empty_world) =
      Completed 1 total d) \<and>
   subseq [start_message (cat_url (fallback_categories ! 0)), start_message second_url]
     (sent (snd (snd (full_parse env_two_pages out_two_pages two_config init_parser
        empty_world)))) \<and>
   subseq [category_error_message (cat_name (fallback_categories ! 1)) (KeyError (u ''href''))]
     (sent (snd (snd (full_parse env_two_pages out_two_pages two_config init_parser
        empty_world))))"
proof -
  note m = main_page_two
  from results_two [of session_world] obtain r where r: "\<not> isl r"
    and rs: "category_results env_two_pages out_two_pages
       [fallback_categories ! 0, fallback_categories ! 1] session_world =
     [(fallback_categories ! 0, r), (fallback_categories ! 1, Inl (KeyError (u ''href'')))]"
    by blast
  from r obtain ls where ls: "r = Inr ls"
    by (cases r) simp_all
  note t = full_parse_survives_faults [OF m, unfolded session_categories_two rs ls]
  from t have a: "\<exists>total d. fst (full_parse env_two_pages out_two_pages two_config init_parser
      empty_world) = Completed 1 total d"
    by simp
  from t have b: "subseq [start_message (cat_url (fallback_categories ! 0)),
      start_message second_url]
     (sent (snd (snd (full_parse env_two_pages out_two_pages two_config init_parser
        empty_world))))"
    by (simp add: two_urls(2))
  from t have c: "subseq [category_error_message (cat_name (fallback_categories ! 1))
      (KeyError (u ''href''))]
     (sent (snd (snd (full_parse env_two_pages out_two_pages two_config init_parser
        empty_world))))"
    by simp
  from m a b c show ?thesis
    by blast
qed

end
